theory Spec2Isabelle
  imports Main "HOL-Library.Word"
begin

section \<open>Data model\<close>

text \<open>
  Go's \<^verbatim>\<open>time.Time\<close> is modelled as the number of nanoseconds since the zero instant
  (January 1, year 1, 00:00:00 UTC), so that the zero value of the type is \<open>0\<close>.
  A \<^verbatim>\<open>time.Duration\<close> is an \<^verbatim>\<open>int64\<close> count of nanoseconds, and Go's \<^verbatim>\<open>int\<close> is taken
  as 64 bits wide; both are \<open>64 word\<close>, read as two's complement with \<open>sint\<close>.
  Every reading of the clock (\<^verbatim>\<open>time.Now()\<close>) and every fresh UUID (\<^verbatim>\<open>uuid.New()\<close>) is
  an argument of the function that takes it.
\<close>

type_synonym Time = int
type_synonym Duration = "64 word"

definition IsZero :: "Time \<Rightarrow> bool" where
  "IsZero t = (t = 0)"

definition After :: "Time \<Rightarrow> Time \<Rightarrow> bool" where
  "After t u = (u < t)"

definition Add :: "Time \<Rightarrow> Duration \<Rightarrow> Time" where
  "Add t d = t + sint d"

definition Minute :: Duration where
  "Minute = 60000000000"

text \<open>
  The four package-level errors of the source, and the errors that come from
  \<^verbatim>\<open>database/sql\<close> and the driver: \<^verbatim>\<open>sql.ErrNoRows\<close> and any other driver error.
\<close>

datatype error =
    ErrInvalidExpireAfter
  | ErrInvalidExpireAfterViews
  | ErrEmptySecret
  | ErrSecretNotAvailable
  | ErrNoRows
  | DriverError string

record Secret =
  Hash :: string
  SecretText :: string
  CreatedAt :: Time
  ExpiresAt :: Time
  RemainingViews :: "64 word"

text \<open>The composite literal \<^verbatim>\<open>Secret{}\<close>: every field at its zero value.\<close>

definition Secret_zero :: Secret where
  "Secret_zero = \<lparr>Hash = [], SecretText = [], CreatedAt = 0, ExpiresAt = 0, RemainingViews = 0\<rparr>"

definition IsAvailable :: "Time \<Rightarrow> Secret \<Rightarrow> bool" where
  "IsAvailable now s =
     ((IsZero (ExpiresAt s) \<or> After (ExpiresAt s) now) \<and> 0 < sint (RemainingViews s))"

subsection \<open>Handles\<close>

definition hextable :: string where
  "hextable = ''0123456789abcdef''"

definition EncodeToString :: "8 word list \<Rightarrow> string" where
  "EncodeToString src =
     concat (map (\<lambda>v. [hextable ! (unat v div 16), hextable ! (unat v mod 16)]) src)"

text \<open>\<^verbatim>\<open>GenHashKey\<close>, given the bytes of the UUID that \<^verbatim>\<open>uuid.New()\<close> returned.\<close>

definition GenHashKey :: "8 word list \<Rightarrow> string" where
  "GenHashKey uuid = EncodeToString uuid"

subsection \<open>Creation and validation\<close>

text \<open>
  A Go function returning \<^verbatim>\<open>(Secret, error)\<close> returns both values; the model returns the
  pair, with \<open>None\<close> for a nil error.
\<close>

type_synonym result = "Secret \<times> error option"

definition NewSecret :: "8 word list \<Rightarrow> Time \<Rightarrow> string \<Rightarrow> 64 word \<Rightarrow> 64 word \<Rightarrow> result" where
  "NewSecret uuid now secret expireAfterViews expireAfter =
     (let result = Secret_zero\<lparr>Hash := GenHashKey uuid, CreatedAt := now\<rparr> in
      if secret = [] then (Secret_zero, Some ErrEmptySecret)
      else let result = result\<lparr>SecretText := secret\<rparr> in
      if sint expireAfterViews < 1 then (Secret_zero, Some ErrInvalidExpireAfterViews)
      else let result = result\<lparr>RemainingViews := expireAfterViews\<rparr> in
      if sint expireAfter < 0 then (Secret_zero, Some ErrInvalidExpireAfter)
      else let result =
             (if 0 < sint expireAfter
              then result\<lparr>ExpiresAt := Add (CreatedAt result) (expireAfter * Minute)\<rparr>
              else result)
      in (result, None))"

section \<open>In-memory storage\<close>

text \<open>
  \<^verbatim>\<open>memStorage.values\<close> is a map from handle to record. Each operation runs to its end
  before the next one starts; the record's mutex is taken and released inside
  \<^verbatim>\<open>Get\<close>, so between operations it is never held and carries no state.
  \<^verbatim>\<open>Get\<close> reads the clock twice, once in each call of \<^verbatim>\<open>IsAvailable\<close>.
\<close>

type_synonym memStorage = "string \<rightharpoonup> Secret"

definition NewMemStorage :: memStorage where
  "NewMemStorage = Map.empty"

definition memStorage_Store ::
  "8 word list \<Rightarrow> Time \<Rightarrow> memStorage \<Rightarrow> string \<Rightarrow> 64 word \<Rightarrow> 64 word \<Rightarrow> result \<times> memStorage" where
  "memStorage_Store uuid now st secret expireAfterViews expireAfter =
     (let (mSecret, err) = NewSecret uuid now secret expireAfterViews expireAfter in
      if err \<noteq> None then ((Secret_zero, err), st)
      else ((mSecret, None), st(Hash mSecret \<mapsto> mSecret)))"

definition memStorage_Get :: "Time \<Rightarrow> Time \<Rightarrow> memStorage \<Rightarrow> string \<Rightarrow> result \<times> memStorage" where
  "memStorage_Get now1 now2 st key =
     (case st key of
        None \<Rightarrow> ((Secret_zero, Some ErrSecretNotAvailable), st)
      | Some mSecret \<Rightarrow>
          if IsAvailable now1 mSecret
          then (if IsAvailable now2 mSecret
                then (let mSecret = mSecret\<lparr>RemainingViews := RemainingViews mSecret - 1\<rparr>
                      in ((mSecret, None), st(key \<mapsto> mSecret)))
                else ((Secret_zero, Some ErrSecretNotAvailable), st(key := None)))
          else ((Secret_zero, Some ErrSecretNotAvailable), st(key := None)))"

section \<open>Relational storage\<close>

text \<open>
  \<^verbatim>\<open>pq.NullTime\<close> and \<^verbatim>\<open>pgSecret\<close>, which embeds \<^verbatim>\<open>Secret\<close> and adds its own
  \<^verbatim>\<open>ExpiresAt\<close>, the field bound to the column \<^verbatim>\<open>expires_at\<close>.
\<close>

record NullTime =
  Time :: Time
  Valid :: bool

record pgSecret =
  pg_Secret :: Secret
  pg_ExpiresAt :: NullTime

definition pgSecret_zero :: pgSecret where
  "pgSecret_zero = \<lparr>pg_Secret = Secret_zero, pg_ExpiresAt = \<lparr>Time = 0, Valid = False\<rparr>\<rparr>"

definition ToSecret :: "pgSecret \<Rightarrow> Secret" where
  "ToSecret p =
     (if Valid (pg_ExpiresAt p) then (pg_Secret p)\<lparr>ExpiresAt := Time (pg_ExpiresAt p)\<rparr>
      else pg_Secret p)"

text \<open>
  The table \<^verbatim>\<open>secret\<close> of the schema: primary key \<^verbatim>\<open>id\<close>, a nullable \<^verbatim>\<open>expires_at\<close>,
  and \<^verbatim>\<open>remaining_views\<close> of SQL type \<^verbatim>\<open>INTEGER\<close> (32 bits, checked by the server; the
  model keeps the value as Go reads it back, in a 64-bit \<^verbatim>\<open>int\<close>). Timestamps are kept
  as they are written.
\<close>

record row =
  id_col :: string
  secret_text :: string
  created_at :: Time
  expires_at :: "Time option"
  remaining_views :: "64 word"

type_synonym table = "string \<rightharpoonup> row"

definition int4_range :: "int \<Rightarrow> bool" where
  "int4_range v = (- 2147483648 \<le> v \<and> v \<le> 2147483647)"

text \<open>The named parameters of the \<^verbatim>\<open>INSERT\<close>, bound to the fields of a \<^verbatim>\<open>pgSecret\<close> by
  their \<^verbatim>\<open>db\<close> tags; a \<^verbatim>\<open>NullTime\<close> that is not valid is written as \<^verbatim>\<open>NULL\<close>.\<close>

definition bind_row :: "pgSecret \<Rightarrow> row" where
  "bind_row p =
     \<lparr>id_col = Hash (pg_Secret p),
      secret_text = SecretText (pg_Secret p),
      created_at = CreatedAt (pg_Secret p),
      expires_at = (if Valid (pg_ExpiresAt p) then Some (Time (pg_ExpiresAt p)) else None),
      remaining_views = RemainingViews (pg_Secret p)\<rparr>"

text \<open>The columns of a selected row, scanned into a fresh \<^verbatim>\<open>pgSecret\<close>.\<close>

definition scan_row :: "row \<Rightarrow> pgSecret" where
  "scan_row r =
     \<lparr>pg_Secret = \<lparr>Hash = id_col r, SecretText = secret_text r, CreatedAt = created_at r,
                   ExpiresAt = 0, RemainingViews = remaining_views r\<rparr>,
      pg_ExpiresAt = (case expires_at r of
                        None \<Rightarrow> \<lparr>Time = 0, Valid = False\<rparr>
                      | Some t \<Rightarrow> \<lparr>Time = t, Valid = True\<rparr>)\<rparr>"

text \<open>
  Each statement takes the failure of the connection or the driver at that point, if any,
  as its first argument, and the table as the transaction sees it.
\<close>

definition NamedExec_INSERT :: "error option \<Rightarrow> table \<Rightarrow> pgSecret \<Rightarrow> error option \<times> table" where
  "NamedExec_INSERT fault tbl p =
     (case fault of
        Some e \<Rightarrow> (Some e, tbl)
      | None \<Rightarrow>
          let r = bind_row p in
          if tbl (id_col r) \<noteq> None then (Some (DriverError ''unique_violation''), tbl)
          else if \<not> int4_range (sint (remaining_views r))
          then (Some (DriverError ''numeric_value_out_of_range''), tbl)
          else (None, tbl(id_col r \<mapsto> r)))"

definition tx_Get :: "error option \<Rightarrow> table \<Rightarrow> string \<Rightarrow> pgSecret \<times> error option" where
  "tx_Get fault tbl key =
     (case fault of
        Some e \<Rightarrow> (pgSecret_zero, Some e)
      | None \<Rightarrow>
          (case tbl key of
             None \<Rightarrow> (pgSecret_zero, Some ErrNoRows)
           | Some r \<Rightarrow> (scan_row r, None)))"

definition tx_Exec_UPDATE :: "error option \<Rightarrow> table \<Rightarrow> string \<Rightarrow> error option \<times> table" where
  "tx_Exec_UPDATE fault tbl key =
     (case fault of
        Some e \<Rightarrow> (Some e, tbl)
      | None \<Rightarrow>
          (case tbl key of
             None \<Rightarrow> (None, tbl)
           | Some r \<Rightarrow>
               if \<not> int4_range (sint (remaining_views r) - 1)
               then (Some (DriverError ''numeric_value_out_of_range''), tbl)
               else (None, tbl(key \<mapsto> r\<lparr>remaining_views := remaining_views r - 1\<rparr>))))"

definition tx_Exec_DELETE :: "error option \<Rightarrow> table \<Rightarrow> string \<Rightarrow> error option \<times> table" where
  "tx_Exec_DELETE fault tbl key =
     (case fault of
        Some e \<Rightarrow> (Some e, tbl)
      | None \<Rightarrow> (None, tbl(key := None)))"

text \<open>
  What the database does during one call of \<^verbatim>\<open>Get\<close>: the error, if any, of
  \<^verbatim>\<open>Beginx\<close>, of the \<^verbatim>\<open>SELECT\<close>, of the \<^verbatim>\<open>UPDATE\<close> or \<^verbatim>\<open>DELETE\<close>, of \<^verbatim>\<open>Commit\<close>
  and of \<^verbatim>\<open>Rollback\<close> (the last one is only logged).
\<close>

record db_env =
  Beginx_err :: "error option"
  Get_err :: "error option"
  Exec_err :: "error option"
  Commit_err :: "error option"
  Rollback_err :: "error option"

definition pgStorage_Store ::
  "8 word list \<Rightarrow> Time \<Rightarrow> error option \<Rightarrow> table \<Rightarrow> string \<Rightarrow> 64 word \<Rightarrow> 64 word \<Rightarrow> result \<times> table" where
  "pgStorage_Store uuid now fault tbl secret expireAfterViews expireAfter =
     (let (s, err) = NewSecret uuid now secret expireAfterViews expireAfter in
      if err \<noteq> None then ((Secret_zero, err), tbl)
      else
        let pSecret = \<lparr>pg_Secret = s, pg_ExpiresAt = \<lparr>Time = 0, Valid = False\<rparr>\<rparr>;
            pSecret = pSecret\<lparr>pg_ExpiresAt :=
                        (pg_ExpiresAt pSecret)\<lparr>Valid := \<not> IsZero (ExpiresAt (pg_Secret pSecret))\<rparr>\<rparr>;
            (err, tbl') = NamedExec_INSERT fault tbl pSecret
        in if err \<noteq> None then ((Secret_zero, err), tbl')
           else ((pg_Secret pSecret, None), tbl'))"

text \<open>
  The body of \<^verbatim>\<open>pgStorage.Get\<close> after \<^verbatim>\<open>Beginx\<close>: the named results as its
  \<^verbatim>\<open>return\<close> statement sets them, and the table as the open transaction has left it.
\<close>

definition pgStorage_Get_body :: "db_env \<Rightarrow> Time \<Rightarrow> table \<Rightarrow> string \<Rightarrow> result \<times> table" where
  "pgStorage_Get_body env now tbl key =
     (let (pSecret, err) = tx_Get (Get_err env) tbl key in
      if err \<noteq> None then ((Secret_zero, err), tbl)
      else
        let secret = ToSecret pSecret in
        if IsAvailable now secret
        then (let secret = secret\<lparr>RemainingViews := RemainingViews secret - 1\<rparr>;
                  (err, tbl') = tx_Exec_UPDATE (Exec_err env) tbl key
              in if err \<noteq> None then ((Secret_zero, err), tbl')
                 else ((secret, None), tbl'))
        else (let (err, tbl') = tx_Exec_DELETE (Exec_err env) tbl key
              in if err \<noteq> None then ((Secret_zero, err), tbl')
                 else ((Secret_zero, Some ErrSecretNotAvailable), tbl')))"

text \<open>
  The deferred function: it rewrites the named result \<^verbatim>\<open>err\<close> only. A rollback, and a
  commit that fails, leave the table as it was when the transaction began (\<open>tbl\<close>).
\<close>

definition pgStorage_Get_deferred :: "db_env \<Rightarrow> table \<Rightarrow> result \<times> table \<Rightarrow> result \<times> table" where
  "pgStorage_Get_deferred env tbl r =
     (let ((secret, err), tbl') = r in
      if err \<noteq> None \<and> err \<noteq> Some ErrSecretNotAvailable
      then ((secret, Some ErrSecretNotAvailable), tbl)
      else (case Commit_err env of
              Some e \<Rightarrow> ((secret, Some ErrSecretNotAvailable), tbl)
            | None \<Rightarrow> ((secret, err), tbl')))"

definition pgStorage_Get :: "db_env \<Rightarrow> Time \<Rightarrow> table \<Rightarrow> string \<Rightarrow> result \<times> table" where
  "pgStorage_Get env now tbl key =
     (case Beginx_err env of
        Some e \<Rightarrow> ((Secret_zero, Some ErrSecretNotAvailable), tbl)
      | None \<Rightarrow> pgStorage_Get_deferred env tbl (pgStorage_Get_body env now tbl key))"

text \<open>No statement of a call of \<^verbatim>\<open>Get\<close> fails (a failing rollback is never reached then).\<close>

definition clean_env :: "db_env \<Rightarrow> bool" where
  "clean_env env =
     (Beginx_err env = None \<and> Get_err env = None \<and> Exec_err env = None \<and> Commit_err env = None)"

text \<open>A database on which no statement fails.\<close>

definition no_faults :: db_env where
  "no_faults = \<lparr>Beginx_err = None, Get_err = None, Exec_err = None, Commit_err = None,
                 Rollback_err = None\<rparr>"

section \<open>Sequences of operations\<close>

text \<open>
  An operation carries what it reads from its environment: the UUID and the clock
  readings, and for the relational backend what the database does.
\<close>

datatype mem_op =
    MemStore "8 word list" Time string "64 word" "64 word"
  | MemGet Time Time string

fun mem_step :: "mem_op \<Rightarrow> memStorage \<Rightarrow> result \<times> memStorage" where
  "mem_step (MemStore uuid now secret v t) st = memStorage_Store uuid now st secret v t"
| "mem_step (MemGet now1 now2 key) st = memStorage_Get now1 now2 st key"

fun mem_run :: "mem_op list \<Rightarrow> memStorage \<Rightarrow> result list \<times> memStorage" where
  "mem_run [] st = ([], st)"
| "mem_run (x # xs) st =
     (let (r, st') = mem_step x st; (rs, st'') = mem_run xs st' in (r # rs, st''))"

datatype pg_op =
    PgStore "8 word list" Time "error option" string "64 word" "64 word"
  | PgGet db_env Time string

fun pg_step :: "pg_op \<Rightarrow> table \<Rightarrow> result \<times> table" where
  "pg_step (PgStore uuid now fault secret v t) tbl = pgStorage_Store uuid now fault tbl secret v t"
| "pg_step (PgGet env now key) tbl = pgStorage_Get env now tbl key"

fun pg_run :: "pg_op list \<Rightarrow> table \<Rightarrow> result list \<times> table" where
  "pg_run [] tbl = ([], tbl)"
| "pg_run (x # xs) tbl =
     (let (r, tbl') = pg_step x tbl; (rs, tbl'') = pg_run xs tbl' in (r # rs, tbl''))"

text \<open>The secret that \<^verbatim>\<open>Get\<close> reads from a row.\<close>

definition row_secret :: "row \<Rightarrow> Secret" where
  "row_secret r = ToSecret (scan_row r)"

text \<open>
  A handle is dead at a time when the store has no record under it, or a record that is
  not available at that time.
\<close>

definition mem_dead :: "Time \<Rightarrow> memStorage \<Rightarrow> string \<Rightarrow> bool" where
  "mem_dead now st key = (case st key of None \<Rightarrow> True | Some s \<Rightarrow> \<not> IsAvailable now s)"

definition pg_dead :: "Time \<Rightarrow> table \<Rightarrow> string \<Rightarrow> bool" where
  "pg_dead now tbl key =
     (case tbl key of None \<Rightarrow> True | Some r \<Rightarrow> \<not> IsAvailable now (row_secret r))"

text \<open>
  An operation that comes after the time \<open>now\<close> and is not the creation of a new secret
  under the handle \<open>key\<close>.
\<close>

fun mem_later :: "Time \<Rightarrow> string \<Rightarrow> mem_op \<Rightarrow> bool" where
  "mem_later now key (MemStore uuid now' secret v t) = (GenHashKey uuid \<noteq> key)"
| "mem_later now key (MemGet now1 now2 k) = (now \<le> now1 \<and> now \<le> now2)"

fun pg_later :: "Time \<Rightarrow> string \<Rightarrow> pg_op \<Rightarrow> bool" where
  "pg_later now key (PgStore uuid now' fault secret v t) = (GenHashKey uuid \<noteq> key)"
| "pg_later now key (PgGet env now1 k) = (now \<le> now1)"

fun mem_is_Get :: "string \<Rightarrow> mem_op \<Rightarrow> bool" where
  "mem_is_Get key (MemGet now1 now2 k) = (k = key)"
| "mem_is_Get key (MemStore uuid now secret v t) = False"

fun pg_is_Get :: "string \<Rightarrow> pg_op \<Rightarrow> bool" where
  "pg_is_Get key (PgGet env now k) = (k = key)"
| "pg_is_Get key (PgStore uuid now fault secret v t) = False"

text \<open>A \<^verbatim>\<open>Get\<close> of the relational backend on \<open>key\<close> during which no statement fails.\<close>

fun pg_is_clean_Get :: "string \<Rightarrow> pg_op \<Rightarrow> bool" where
  "pg_is_clean_Get key (PgGet env now k) = (k = key \<and> clean_env env)"
| "pg_is_clean_Get key (PgStore uuid now fault secret v t) = False"

section \<open>Validation as the specification words it\<close>

text \<open>
  The error of a creation request as the specification describes it: the content check
  first, then the view count, then the time to live.
\<close>

definition spec_validation :: "string \<Rightarrow> 64 word \<Rightarrow> 64 word \<Rightarrow> error option" where
  "spec_validation content requestedViews ttlMinutes =
     (if content = [] then Some ErrEmptySecret
      else if sint requestedViews < 1 then Some ErrInvalidExpireAfterViews
      else if sint ttlMinutes < 0 then Some ErrInvalidExpireAfter
      else None)"

section \<open>Example data\<close>

text \<open>A UUID, its handle, a clock reading, and a secret and a row without expiry.\<close>

definition example_uuid :: "8 word list" where
  "example_uuid =
     [0x12, 0x3e, 0x45, 0x67, 0xe8, 0x9b, 0x12, 0xd3, 0xa4, 0x56, 0x42, 0x66, 0x14, 0x17, 0x40, 0x00]"

definition example_key :: string where
  "example_key = ''123e4567e89b12d3a456426614174000''"

definition example_now :: Time where
  "example_now = 63800000000000000000"

definition example_secret :: "64 word \<Rightarrow> Secret" where
  "example_secret v =
     \<lparr>Hash = example_key, SecretText = ''x'', CreatedAt = example_now, ExpiresAt = 0,
      RemainingViews = v\<rparr>"

definition example_row :: "64 word \<Rightarrow> row" where
  "example_row v =
     \<lparr>id_col = example_key, secret_text = ''x'', created_at = example_now, expires_at = None,
      remaining_views = v\<rparr>"

section \<open>Auxiliary facts\<close>

subsection \<open>Single operations\<close>

lemma sint_pred:
  fixes w :: "64 word"
  assumes "0 < sint w"
  shows "sint (w - 1) = sint w - 1"
proof -
  have "sint w < 2 ^ 63"
    using sint_lt [of w] by simp
  with assms have "signed_take_bit 63 (sint w - 1) = sint w - 1"
    by (intro signed_take_bit_int_eq_self) simp_all
  then show ?thesis
    by (simp add: sint_word_diff)
qed

lemma NewSecret_err:
  "snd (NewSecret uuid now secret v t) = spec_validation secret v t"
  by (simp add: NewSecret_def spec_validation_def Let_def)

lemma NewSecret_zero_on_error:
  "snd (NewSecret uuid now secret v t) \<noteq> None \<Longrightarrow> fst (NewSecret uuid now secret v t) = Secret_zero"
  by (simp add: NewSecret_def Let_def split: if_splits)

lemma NewSecret_ok:
  "spec_validation secret v t = None \<Longrightarrow>
   NewSecret uuid now secret v t =
     (\<lparr>Hash = GenHashKey uuid, SecretText = secret, CreatedAt = now,
       ExpiresAt = (if 0 < sint t then Add now (t * Minute) else 0),
       RemainingViews = v\<rparr>, None)"
  by (simp add: NewSecret_def spec_validation_def Let_def Secret_zero_def split: if_splits)

lemma spec_validation_None:
  "spec_validation secret v t = None \<longleftrightarrow> secret \<noteq> [] \<and> 1 \<le> sint v \<and> 0 \<le> sint t"
  by (auto simp add: spec_validation_def)

lemma memStorage_Store_ok:
  "spec_validation secret v t = None \<Longrightarrow>
   memStorage_Store uuid now st secret v t =
     ((fst (NewSecret uuid now secret v t), None),
      st(GenHashKey uuid \<mapsto> fst (NewSecret uuid now secret v t)))"
  by (simp add: memStorage_Store_def NewSecret_ok)

lemma memStorage_Store_err:
  "snd (fst (memStorage_Store uuid now st secret v t)) = spec_validation secret v t"
  using NewSecret_err [of uuid now secret v t]
  by (cases "NewSecret uuid now secret v t") (simp add: memStorage_Store_def)

lemma memStorage_Store_invalid:
  "spec_validation secret v t \<noteq> None \<Longrightarrow>
   memStorage_Store uuid now st secret v t = ((Secret_zero, spec_validation secret v t), st)"
  using NewSecret_err [of uuid now secret v t]
  by (cases "NewSecret uuid now secret v t") (simp add: memStorage_Store_def)

lemma memStorage_Get_absent:
  "st key = None \<Longrightarrow>
   memStorage_Get now1 now2 st key = ((Secret_zero, Some ErrSecretNotAvailable), st)"
  by (simp add: memStorage_Get_def)

lemma memStorage_Get_available:
  "st key = Some s \<Longrightarrow> IsAvailable now1 s \<Longrightarrow> IsAvailable now2 s \<Longrightarrow>
   memStorage_Get now1 now2 st key =
     ((s\<lparr>RemainingViews := RemainingViews s - 1\<rparr>, None),
      st(key \<mapsto> s\<lparr>RemainingViews := RemainingViews s - 1\<rparr>))"
  by (simp add: memStorage_Get_def Let_def)

lemma memStorage_Get_unavailable:
  "st key = Some s \<Longrightarrow> \<not> IsAvailable now1 s \<or> \<not> IsAvailable now2 s \<Longrightarrow>
   memStorage_Get now1 now2 st key =
     ((Secret_zero, Some ErrSecretNotAvailable), st(key := None))"
  by (auto simp add: memStorage_Get_def)

lemma pgStorage_Store_invalid:
  "spec_validation secret v t \<noteq> None \<Longrightarrow>
   pgStorage_Store uuid now fault tbl secret v t = ((Secret_zero, spec_validation secret v t), tbl)"
  using NewSecret_err [of uuid now secret v t]
  by (cases "NewSecret uuid now secret v t") (simp add: pgStorage_Store_def)


lemma pgStorage_Get_absent:
  "tbl key = None \<Longrightarrow>
   pgStorage_Get env now tbl key = ((Secret_zero, Some ErrSecretNotAvailable), tbl)"
  by (simp add: clean_env_def pgStorage_Get_def pgStorage_Get_deferred_def pgStorage_Get_body_def tx_Get_def
      split: option.splits)

lemma pgStorage_Get_unavailable:
  "tbl key = Some r \<Longrightarrow> \<not> IsAvailable now (row_secret r) \<Longrightarrow>
   pgStorage_Get env now tbl key =
     ((Secret_zero, Some ErrSecretNotAvailable),
      if clean_env env then tbl(key := None) else tbl)"
  by (simp add: clean_env_def pgStorage_Get_def pgStorage_Get_deferred_def pgStorage_Get_body_def tx_Get_def
      tx_Exec_DELETE_def row_secret_def split: option.splits)

lemma pgStorage_Get_available:
  "tbl key = Some r \<Longrightarrow> IsAvailable now (row_secret r) \<Longrightarrow>
   int4_range (sint (remaining_views r)) \<Longrightarrow>
   clean_env env \<Longrightarrow>
   pgStorage_Get env now tbl key =
     (((row_secret r)\<lparr>RemainingViews := remaining_views r - 1\<rparr>, None),
      tbl(key \<mapsto> r\<lparr>remaining_views := remaining_views r - 1\<rparr>))"
  apply (simp add: clean_env_def pgStorage_Get_def pgStorage_Get_deferred_def pgStorage_Get_body_def tx_Get_def
      tx_Exec_UPDATE_def row_secret_def split: option.splits)
  apply (auto simp add: int4_range_def IsAvailable_def ToSecret_def scan_row_def split: option.splits if_splits)
  done

lemma pgStorage_Get_err:
  "snd (fst (pgStorage_Get env now tbl key)) = None \<or>
   snd (fst (pgStorage_Get env now tbl key)) = Some ErrSecretNotAvailable"
  by (auto simp add: clean_env_def pgStorage_Get_def pgStorage_Get_deferred_def pgStorage_Get_body_def tx_Get_def
      tx_Exec_UPDATE_def tx_Exec_DELETE_def Let_def split: option.splits prod.splits)

lemma pgStorage_Get_fault:
  "\<not> clean_env env \<Longrightarrow>
   snd (fst (pgStorage_Get env now tbl key)) = Some ErrSecretNotAvailable"
  by (auto simp add: clean_env_def pgStorage_Get_def pgStorage_Get_deferred_def pgStorage_Get_body_def tx_Get_def
      tx_Exec_UPDATE_def tx_Exec_DELETE_def Let_def split: option.splits prod.splits)

lemma pgStorage_Store_ok:
  assumes "spec_validation secret v t = None" and "tbl (GenHashKey uuid) = None"
    and "int4_range (sint v)"
  shows "pgStorage_Store uuid now None tbl secret v t =
     ((fst (NewSecret uuid now secret v t), None),
      tbl(GenHashKey uuid \<mapsto>
        \<lparr>id_col = GenHashKey uuid, secret_text = secret, created_at = now,
         expires_at = (if IsZero (ExpiresAt (fst (NewSecret uuid now secret v t))) then None else Some 0),
         remaining_views = v\<rparr>))"
  using assms
  by (simp add: pgStorage_Store_def NewSecret_ok NamedExec_INSERT_def bind_row_def Let_def)

lemma pgStorage_Store_success:
  assumes "snd (fst (pgStorage_Store uuid now fault tbl secret v t)) = None"
  shows "spec_validation secret v t = None \<and> fault = None \<and> tbl (GenHashKey uuid) = None \<and>
         int4_range (sint v)"
proof -
  have v: "spec_validation secret v t = None"
    using assms pgStorage_Store_invalid [of secret v t uuid now fault tbl]
    by (cases "spec_validation secret v t") auto
  with assms show ?thesis
    by (auto simp add: pgStorage_Store_def NewSecret_ok NamedExec_INSERT_def bind_row_def Let_def
        split: option.splits if_splits)
qed

lemma pgStorage_Store_fault:
  "spec_validation secret v t = None \<Longrightarrow>
   pgStorage_Store uuid now (Some e) tbl secret v t = ((Secret_zero, Some e), tbl)"
  by (simp add: pgStorage_Store_def NewSecret_ok NamedExec_INSERT_def)

lemma row_secret_views: "RemainingViews (row_secret r) = remaining_views r"
  by (simp add: row_secret_def ToSecret_def scan_row_def split: option.splits)

lemma row_secret_text: "SecretText (row_secret r) = secret_text r"
  by (simp add: row_secret_def ToSecret_def scan_row_def split: option.splits)

lemma row_secret_hash: "Hash (row_secret r) = id_col r"
  by (simp add: row_secret_def ToSecret_def scan_row_def split: option.splits)

lemma row_secret_expires:
  "ExpiresAt (row_secret r) = (case expires_at r of None \<Rightarrow> 0 | Some t \<Rightarrow> t)"
  by (simp add: row_secret_def ToSecret_def scan_row_def split: option.splits)

lemma mem_roundtrip:
  assumes valid: "spec_validation content v t = None" and views: "2 \<le> sint v"
    and s: "s = fst (fst (memStorage_Store uuid now st content v t))"
    and live: "IsZero (ExpiresAt s) \<or> After (ExpiresAt s) now1 \<and> After (ExpiresAt s) now2"
  shows "memStorage_Get now1 now2 (snd (memStorage_Store uuid now st content v t)) (Hash s)
         = ((s\<lparr>RemainingViews := v - 1\<rparr>, None), st(Hash s \<mapsto> s\<lparr>RemainingViews := v - 1\<rparr>))"
proof -
  have s': "s = fst (NewSecret uuid now content v t)"
    using s valid by (simp add: memStorage_Store_ok)
  have f: "Hash s = GenHashKey uuid" "RemainingViews s = v" "SecretText s = content"
    using valid by (simp_all add: s' NewSecret_ok)
  have a: "IsAvailable now1 s" "IsAvailable now2 s"
    using live views by (auto simp add: IsAvailable_def f)
  have st': "snd (memStorage_Store uuid now st content v t) = st(Hash s \<mapsto> s)"
    using valid by (simp add: memStorage_Store_ok f s' [symmetric])
  show ?thesis
    using memStorage_Get_available [of "st(Hash s \<mapsto> s)" "Hash s" s now1 now2] a
    by (simp add: st' f)
qed

lemma pg_roundtrip:
  assumes ok: "snd (fst (pgStorage_Store uuid now fault tbl content v t)) = None"
    and views: "2 \<le> sint v"
    and s: "s = fst (fst (pgStorage_Store uuid now fault tbl content v t))"
    and env: "clean_env env"
    and g: "g = fst (pgStorage_Get env now1 (snd (pgStorage_Store uuid now fault tbl content v t)) (Hash s))"
  shows "snd g = None \<and> SecretText (fst g) = content \<and> Hash (fst g) = Hash s \<and>
         RemainingViews (fst g) = v - 1"
proof -
  from pgStorage_Store_success [OF ok]
  have valid: "spec_validation content v t = None" and fault: "fault = None"
    and fresh: "tbl (GenHashKey uuid) = None" and range: "int4_range (sint v)"
    by simp_all
  define r where "r = \<lparr>id_col = GenHashKey uuid, secret_text = content, created_at = now,
         expires_at = (if IsZero (ExpiresAt (fst (NewSecret uuid now content v t))) then None else Some 0),
         remaining_views = v\<rparr>"
  have store: "pgStorage_Store uuid now fault tbl content v t =
      ((fst (NewSecret uuid now content v t), None), tbl(GenHashKey uuid \<mapsto> r))"
    unfolding fault r_def
    using pgStorage_Store_ok [of content v t tbl uuid now] valid fresh range by simp
  have h: "Hash s = GenHashKey uuid"
    using valid by (simp add: s store NewSecret_ok)
  have av: "IsAvailable now1 (row_secret r)"
    using views by (simp add: IsAvailable_def row_secret_views row_secret_expires r_def IsZero_def)
  have rr: "int4_range (sint (remaining_views r))"
    using range by (simp add: r_def)
  have "pgStorage_Get env now1 ((tbl(GenHashKey uuid \<mapsto> r))) (GenHashKey uuid) =
     (((row_secret r)\<lparr>RemainingViews := remaining_views r - 1\<rparr>, None),
      (tbl(GenHashKey uuid \<mapsto> r))(GenHashKey uuid \<mapsto> r\<lparr>remaining_views := remaining_views r - 1\<rparr>))"
    by (rule pgStorage_Get_available [OF _ av rr env]) simp
  then show ?thesis
    by (simp add: g store h row_secret_text row_secret_hash) (simp add: r_def)
qed

subsection \<open>Handles that are dead stay dead\<close>

lemma IsAvailable_later:
  "\<not> IsAvailable now s \<Longrightarrow> now \<le> now' \<Longrightarrow> \<not> IsAvailable now' s"
  by (auto simp add: IsAvailable_def IsZero_def After_def)

lemma memStorage_Get_frame:
  "k \<noteq> key \<Longrightarrow> snd (memStorage_Get now1 now2 st key) k = st k"
  by (simp add: memStorage_Get_def Let_def split: option.splits)

lemma memStorage_Store_frame:
  "k \<noteq> GenHashKey uuid \<Longrightarrow> snd (memStorage_Store uuid now st secret v t) k = st k"
  by (cases "spec_validation secret v t = None")
     (simp_all add: memStorage_Store_ok memStorage_Store_invalid)

lemma pgStorage_Get_frame:
  "k \<noteq> key \<Longrightarrow> snd (pgStorage_Get env now tbl key) k = tbl k"
  by (auto simp add: pgStorage_Get_def pgStorage_Get_deferred_def pgStorage_Get_body_def tx_Get_def
      tx_Exec_UPDATE_def tx_Exec_DELETE_def Let_def split: option.splits prod.splits if_splits)

lemma pgStorage_Store_frame:
  "k \<noteq> GenHashKey uuid \<Longrightarrow> snd (pgStorage_Store uuid now fault tbl secret v t) k = tbl k"
proof (cases "spec_validation secret v t = None")
  case True
  assume "k \<noteq> GenHashKey uuid"
  with True show ?thesis
    by (auto simp add: pgStorage_Store_def NewSecret_ok NamedExec_INSERT_def bind_row_def Let_def
        split: option.splits)
next
  case False
  then show ?thesis by (simp add: pgStorage_Store_invalid)
qed

lemma memStorage_Get_dead:
  assumes "mem_dead now st key" and "now \<le> now1"
  shows "memStorage_Get now1 now2 st key =
           ((Secret_zero, Some ErrSecretNotAvailable), st(key := None))"
proof (cases "st key")
  case None
  then have "st(key := None) = st" by auto
  with None show ?thesis by (simp add: memStorage_Get_absent)
next
  case (Some s)
  with assms have "\<not> IsAvailable now1 s"
    using IsAvailable_later [of now s now1] by (simp add: mem_dead_def)
  with Some show ?thesis by (simp add: memStorage_Get_unavailable)
qed

lemma pgStorage_Get_dead:
  assumes "pg_dead now tbl key" and "now \<le> now1"
  shows "pgStorage_Get env now1 tbl key =
           ((Secret_zero, Some ErrSecretNotAvailable),
            if clean_env env then tbl(key := None) else tbl)"
proof (cases "tbl key")
  case None
  then have "tbl(key := None) = tbl" by auto
  with None show ?thesis by (simp add: pgStorage_Get_absent)
next
  case (Some r)
  with assms have "\<not> IsAvailable now1 (row_secret r)"
    using IsAvailable_later [of now "row_secret r" now1] by (simp add: pg_dead_def)
  with Some show ?thesis by (simp add: pgStorage_Get_unavailable)
qed

lemma mem_step_dead:
  assumes "mem_dead now st key" and "mem_later now key x"
  shows "mem_dead now (snd (mem_step x st)) key \<and>
         (mem_is_Get key x \<longrightarrow>
            fst (mem_step x st) = (Secret_zero, Some ErrSecretNotAvailable) \<and>
            snd (mem_step x st) key = None) \<and>
         (st key = None \<longrightarrow> snd (mem_step x st) key = None)"
proof (cases x)
  case (MemStore uuid now' secret v t)
  with assms have "key \<noteq> GenHashKey uuid" by auto
  then have "snd (mem_step x st) key = st key"
    by (simp add: MemStore memStorage_Store_frame)
  with assms(1) show ?thesis by (simp add: mem_dead_def MemStore)
next
  case (MemGet now1 now2 k)
  show ?thesis
  proof (cases "k = key")
    case True
    with assms MemGet have "mem_step x st = ((Secret_zero, Some ErrSecretNotAvailable), st(key := None))"
      by (simp add: memStorage_Get_dead)
    then show ?thesis by (simp add: mem_dead_def MemGet True)
  next
    case False
    then have "snd (mem_step x st) key = st key"
      by (simp add: MemGet memStorage_Get_frame)
    with assms(1) False show ?thesis by (simp add: mem_dead_def MemGet)
  qed
qed

lemma pg_step_dead:
  assumes "pg_dead now tbl key" and "pg_later now key x"
  shows "pg_dead now (snd (pg_step x tbl)) key \<and>
         (pg_is_Get key x \<longrightarrow> fst (pg_step x tbl) = (Secret_zero, Some ErrSecretNotAvailable)) \<and>
         (pg_is_clean_Get key x \<longrightarrow> snd (pg_step x tbl) key = None) \<and>
         (tbl key = None \<longrightarrow> snd (pg_step x tbl) key = None)"
proof (cases x)
  case (PgStore uuid now' fault secret v t)
  with assms have "key \<noteq> GenHashKey uuid" by auto
  then have "snd (pg_step x tbl) key = tbl key"
    by (simp add: PgStore pgStorage_Store_frame)
  with assms(1) show ?thesis by (simp add: pg_dead_def PgStore)
next
  case (PgGet env now1 k)
  show ?thesis
  proof (cases "k = key")
    case True
    with assms PgGet have "pg_step x tbl =
        ((Secret_zero, Some ErrSecretNotAvailable), if clean_env env then tbl(key := None) else tbl)"
      by (simp add: pgStorage_Get_dead)
    with assms(1) show ?thesis by (simp add: pg_dead_def PgGet True)
  next
    case False
    then have "snd (pg_step x tbl) key = tbl key"
      by (simp add: PgGet pgStorage_Get_frame)
    with assms(1) False show ?thesis by (simp add: pg_dead_def PgGet)
  qed
qed

lemma mem_run_dead:
  assumes "mem_dead now st key" and "\<forall>x\<in>set xs. mem_later now key x"
  shows "mem_dead now (snd (mem_run xs st)) key \<and>
         (\<forall>(x, r)\<in>set (zip xs (fst (mem_run xs st))).
            mem_is_Get key x \<longrightarrow> r = (Secret_zero, Some ErrSecretNotAvailable)) \<and>
         ((\<exists>x\<in>set xs. mem_is_Get key x) \<longrightarrow> snd (mem_run xs st) key = None) \<and>
         (st key = None \<longrightarrow> snd (mem_run xs st) key = None)"
  using assms
proof (induction xs arbitrary: st)
  case Nil
  then show ?case by simp
next
  case (Cons x xs)
  obtain r st' where step: "mem_step x st = (r, st')" by (cases "mem_step x st")
  obtain rs st'' where run: "mem_run xs st' = (rs, st'')" by (cases "mem_run xs st'")
  from Cons.prems have later: "mem_later now key x" and rest: "\<forall>x\<in>set xs. mem_later now key x"
    by simp_all
  from mem_step_dead [OF Cons.prems(1) later] step
  have d: "mem_dead now st' key"
    and g: "mem_is_Get key x \<longrightarrow> r = (Secret_zero, Some ErrSecretNotAvailable) \<and> st' key = None"
    and n: "st key = None \<longrightarrow> st' key = None"
    by simp_all
  from Cons.IH [OF d rest] run
  have ih: "mem_dead now st'' key"
    "\<forall>(x, r)\<in>set (zip xs rs). mem_is_Get key x \<longrightarrow> r = (Secret_zero, Some ErrSecretNotAvailable)"
    "(\<exists>x\<in>set xs. mem_is_Get key x) \<longrightarrow> st'' key = None"
    "st' key = None \<longrightarrow> st'' key = None"
    by simp_all
  show ?case
    using g n ih by (auto simp add: step run)
qed

lemma pg_run_dead:
  assumes "pg_dead now tbl key" and "\<forall>x\<in>set xs. pg_later now key x"
  shows "pg_dead now (snd (pg_run xs tbl)) key \<and>
         (\<forall>(x, r)\<in>set (zip xs (fst (pg_run xs tbl))).
            pg_is_Get key x \<longrightarrow> r = (Secret_zero, Some ErrSecretNotAvailable)) \<and>
         ((\<exists>x\<in>set xs. pg_is_clean_Get key x) \<longrightarrow> snd (pg_run xs tbl) key = None) \<and>
         (tbl key = None \<longrightarrow> snd (pg_run xs tbl) key = None)"
  using assms
proof (induction xs arbitrary: tbl)
  case Nil
  then show ?case by simp
next
  case (Cons x xs)
  obtain r tbl' where step: "pg_step x tbl = (r, tbl')" by (cases "pg_step x tbl")
  obtain rs tbl'' where run: "pg_run xs tbl' = (rs, tbl'')" by (cases "pg_run xs tbl'")
  from Cons.prems have later: "pg_later now key x" and rest: "\<forall>x\<in>set xs. pg_later now key x"
    by simp_all
  from pg_step_dead [OF Cons.prems(1) later] step
  have d: "pg_dead now tbl' key"
    and g: "pg_is_Get key x \<longrightarrow> r = (Secret_zero, Some ErrSecretNotAvailable)"
    and c: "pg_is_clean_Get key x \<longrightarrow> tbl' key = None"
    and n: "tbl key = None \<longrightarrow> tbl' key = None"
    by simp_all
  from Cons.IH [OF d rest] run
  have ih: "pg_dead now tbl'' key"
    "\<forall>(x, r)\<in>set (zip xs rs). pg_is_Get key x \<longrightarrow> r = (Secret_zero, Some ErrSecretNotAvailable)"
    "(\<exists>x\<in>set xs. pg_is_clean_Get key x) \<longrightarrow> tbl'' key = None"
    "tbl' key = None \<longrightarrow> tbl'' key = None"
    by simp_all
  show ?case
    using g c n ih by (auto simp add: step run)
qed

subsection \<open>The view counter\<close>

lemma memStorage_Get_success:
  assumes "snd (fst (memStorage_Get now1 now2 st key)) = None"
  shows "\<exists>s. st key = Some s \<and> 0 < sint (RemainingViews s) \<and>
             fst (fst (memStorage_Get now1 now2 st key)) = s\<lparr>RemainingViews := RemainingViews s - 1\<rparr> \<and>
             sint (RemainingViews (fst (fst (memStorage_Get now1 now2 st key)))) = sint (RemainingViews s) - 1"
proof (cases "st key")
  case None
  with assms show ?thesis by (simp add: memStorage_Get_absent)
next
  case (Some s)
  show ?thesis
  proof (cases "IsAvailable now1 s \<and> IsAvailable now2 s")
    case True
    then have "0 < sint (RemainingViews s)" by (simp add: IsAvailable_def)
    with Some True show ?thesis
      by (simp add: memStorage_Get_available sint_pred)
  next
    case False
    with Some assms show ?thesis by (simp add: memStorage_Get_unavailable)
  qed
qed

lemma memStorage_Get_mono:
  assumes "snd (memStorage_Get now1 now2 st key) k = Some s'"
  shows "\<exists>s. st k = Some s \<and> sint (RemainingViews s') \<le> sint (RemainingViews s)"
proof (cases "k = key")
  case False
  with assms show ?thesis by (simp add: memStorage_Get_frame)
next
  case True
  show ?thesis
  proof (cases "st key")
    case None
    with assms True show ?thesis by (simp add: memStorage_Get_absent)
  next
    case (Some s)
    show ?thesis
    proof (cases "IsAvailable now1 s \<and> IsAvailable now2 s")
      case av: True
      then have "0 < sint (RemainingViews s)" by (simp add: IsAvailable_def)
      with Some av assms True show ?thesis
        by (auto simp add: memStorage_Get_available sint_pred)
    next
      case False
      with Some assms True show ?thesis by (simp add: memStorage_Get_unavailable)
    qed
  qed
qed

lemma pgStorage_Get_cases:
  assumes "tbl key = Some r" and "IsAvailable now (row_secret r)"
  shows "pgStorage_Get env now tbl key =
           (if clean_env env \<and> int4_range (sint (remaining_views r) - 1)
            then (((row_secret r)\<lparr>RemainingViews := remaining_views r - 1\<rparr>, None),
                  tbl(key \<mapsto> r\<lparr>remaining_views := remaining_views r - 1\<rparr>))
            else ((if Beginx_err env = None \<and> Get_err env = None \<and> Exec_err env = None \<and>
                      int4_range (sint (remaining_views r) - 1)
                   then (row_secret r)\<lparr>RemainingViews := remaining_views r - 1\<rparr>
                   else Secret_zero, Some ErrSecretNotAvailable), tbl))"
proof -
  have g: "tx_Get None tbl key = (scan_row r, None)"
    using assms(1) by (simp add: tx_Get_def)
  have a: "IsAvailable now (ToSecret (scan_row r))"
    using assms(2) by (simp add: row_secret_def)
  have v: "RemainingViews (ToSecret (scan_row r)) = remaining_views r"
    using row_secret_views [of r] by (simp add: row_secret_def)
  show ?thesis
    using assms(1)
    by (auto simp add: clean_env_def pgStorage_Get_def pgStorage_Get_deferred_def
        pgStorage_Get_body_def g a v tx_Exec_UPDATE_def Let_def row_secret_def tx_Get_def
        split: option.splits)
qed

lemma pgStorage_Get_success:
  assumes "snd (fst (pgStorage_Get env now tbl key)) = None"
  shows "\<exists>r. tbl key = Some r \<and> 0 < sint (remaining_views r) \<and>
             fst (fst (pgStorage_Get env now tbl key)) = (row_secret r)\<lparr>RemainingViews := remaining_views r - 1\<rparr> \<and>
             sint (RemainingViews (fst (fst (pgStorage_Get env now tbl key)))) = sint (remaining_views r) - 1"
proof (cases "tbl key")
  case None
  with assms show ?thesis by (simp add: pgStorage_Get_absent)
next
  case (Some r)
  show ?thesis
  proof (cases "IsAvailable now (row_secret r)")
    case True
    then have "0 < sint (remaining_views r)" by (simp add: IsAvailable_def row_secret_views)
    with Some True assms show ?thesis
      by (simp add: pgStorage_Get_cases sint_pred split: if_splits)
  next
    case False
    with Some assms show ?thesis by (simp add: pgStorage_Get_unavailable)
  qed
qed

lemma pgStorage_Get_mono:
  assumes "snd (pgStorage_Get env now tbl key) k = Some r'"
  shows "\<exists>r. tbl k = Some r \<and> sint (remaining_views r') \<le> sint (remaining_views r)"
proof (cases "k = key")
  case False
  with assms show ?thesis by (simp add: pgStorage_Get_frame)
next
  case True
  show ?thesis
  proof (cases "tbl key")
    case None
    with assms True show ?thesis by (simp add: pgStorage_Get_absent)
  next
    case (Some r)
    show ?thesis
    proof (cases "IsAvailable now (row_secret r)")
      case av: True
      then have "0 < sint (remaining_views r)" by (simp add: IsAvailable_def row_secret_views)
      with Some av assms True show ?thesis
        by (auto simp add: pgStorage_Get_cases sint_pred split: if_splits)
    next
      case False
      with Some assms True show ?thesis by (simp add: pgStorage_Get_unavailable split: if_splits)
    qed
  qed
qed

lemma pgStorage_Store_failed:
  assumes "snd (fst (pgStorage_Store uuid now fault tbl secret v t)) \<noteq> None"
  shows "snd (pgStorage_Store uuid now fault tbl secret v t) = tbl"
proof (cases "spec_validation secret v t = None")
  case True
  with assms show ?thesis
    by (auto simp add: pgStorage_Store_def NewSecret_ok NamedExec_INSERT_def Let_def
        split: option.splits if_splits)
next
  case False
  from pgStorage_Store_invalid [OF False, of uuid now fault tbl]
  show ?thesis by simp
qed

lemma mem_step_views:
  assumes "\<forall>k s. st k = Some s \<longrightarrow> 0 \<le> sint (RemainingViews s)"
  shows "(\<forall>k s. snd (mem_step x st) k = Some s \<longrightarrow> 0 \<le> sint (RemainingViews s)) \<and>
         (snd (fst (mem_step x st)) = None \<longrightarrow> 0 \<le> sint (RemainingViews (fst (fst (mem_step x st)))))"
proof (cases x)
  case (MemStore uuid now secret v t)
  show ?thesis
  proof (cases "spec_validation secret v t = None")
    case True
    then have "1 \<le> sint v" by (simp add: spec_validation_None)
    with True assms show ?thesis
      by (simp add: MemStore memStorage_Store_ok NewSecret_ok)
  next
    case False
    from memStorage_Store_invalid [OF False, of uuid now st] assms False
    show ?thesis by (auto simp add: MemStore)
  qed
next
  case (MemGet now1 now2 key)
  have "0 \<le> sint (RemainingViews s')" if "snd (memStorage_Get now1 now2 st key) k = Some s'" for k s'
  proof (cases "k = key")
    case False
    with that assms show ?thesis by (simp add: memStorage_Get_frame)
  next
    case True
    with that have "fst (fst (memStorage_Get now1 now2 st key)) = s' \<and> snd (fst (memStorage_Get now1 now2 st key)) = None"
      by (auto simp add: memStorage_Get_def Let_def split: option.splits if_splits)
    with memStorage_Get_success [of now1 now2 st key] show ?thesis by auto
  qed
  moreover have "0 \<le> sint (RemainingViews (fst (fst (memStorage_Get now1 now2 st key))))"
    if "snd (fst (memStorage_Get now1 now2 st key)) = None"
    using memStorage_Get_success [OF that] by auto
  ultimately show ?thesis by (simp add: MemGet)
qed

lemma pg_step_views:
  assumes "\<forall>k r. tbl k = Some r \<longrightarrow> 0 \<le> sint (remaining_views r)"
  shows "(\<forall>k r. snd (pg_step x tbl) k = Some r \<longrightarrow> 0 \<le> sint (remaining_views r)) \<and>
         (snd (fst (pg_step x tbl)) = None \<longrightarrow> 0 \<le> sint (RemainingViews (fst (fst (pg_step x tbl)))))"
proof (cases x)
  case (PgStore uuid now fault secret v t)
  show ?thesis
  proof (cases "snd (fst (pgStorage_Store uuid now fault tbl secret v t)) = None")
    case True
    from pgStorage_Store_success [OF True]
    have valid: "spec_validation secret v t = None" and fault: "fault = None"
      and fresh: "tbl (GenHashKey uuid) = None" and range: "int4_range (sint v)"
      by simp_all
    from valid have "1 \<le> sint v" by (simp add: spec_validation_None)
    with assms valid show ?thesis
      using pgStorage_Store_ok [of secret v t tbl uuid now] fresh range
      by (simp add: PgStore fault NewSecret_ok)
  next
    case False
    have "snd (pgStorage_Store uuid now fault tbl secret v t) = tbl"
      using False by (rule pgStorage_Store_failed)
    with assms False show ?thesis by (auto simp add: PgStore)
  qed
next
  case (PgGet env now key)
  have "0 \<le> sint (remaining_views r')" if "snd (pgStorage_Get env now tbl key) k = Some r'" for k r'
  proof (cases "k = key")
    case False
    with that assms show ?thesis by (simp add: pgStorage_Get_frame)
  next
    case True
    show ?thesis
    proof (cases "tbl key")
      case None
      with that True show ?thesis by (simp add: pgStorage_Get_absent)
    next
      case (Some r)
      show ?thesis
      proof (cases "IsAvailable now (row_secret r)")
        case av: True
        then have "0 < sint (remaining_views r)" by (simp add: IsAvailable_def row_secret_views)
        with Some av that True assms show ?thesis
          by (auto simp add: pgStorage_Get_cases sint_pred split: if_splits)
      next
        case False
        with Some that True assms show ?thesis
          by (auto simp add: pgStorage_Get_unavailable split: if_splits)
      qed
    qed
  qed
  moreover have "0 \<le> sint (RemainingViews (fst (fst (pgStorage_Get env now tbl key))))"
    if "snd (fst (pgStorage_Get env now tbl key)) = None"
    using pgStorage_Get_success [OF that] by auto
  ultimately show ?thesis by (simp add: PgGet)
qed

lemma mem_run_views:
  assumes "\<forall>k s. st k = Some s \<longrightarrow> 0 \<le> sint (RemainingViews s)"
  shows "(\<forall>k s. snd (mem_run xs st) k = Some s \<longrightarrow> 0 \<le> sint (RemainingViews s)) \<and>
         (\<forall>r\<in>set (fst (mem_run xs st)). snd r = None \<longrightarrow> 0 \<le> sint (RemainingViews (fst r)))"
  using assms
proof (induction xs arbitrary: st)
  case Nil
  then show ?case by simp
next
  case (Cons x xs)
  obtain r st' where step: "mem_step x st = (r, st')" by (cases "mem_step x st")
  obtain rs st'' where run: "mem_run xs st' = (rs, st'')" by (cases "mem_run xs st'")
  from mem_step_views [OF Cons.prems, of x] step
  have inv: "\<forall>k s. st' k = Some s \<longrightarrow> 0 \<le> sint (RemainingViews s)"
    and r: "snd r = None \<longrightarrow> 0 \<le> sint (RemainingViews (fst r))"
    by simp_all
  from Cons.IH [OF inv] run r show ?case
    by (simp add: step)
qed

lemma pg_run_views:
  assumes "\<forall>k r. tbl k = Some r \<longrightarrow> 0 \<le> sint (remaining_views r)"
  shows "(\<forall>k r. snd (pg_run xs tbl) k = Some r \<longrightarrow> 0 \<le> sint (remaining_views r)) \<and>
         (\<forall>r\<in>set (fst (pg_run xs tbl)). snd r = None \<longrightarrow> 0 \<le> sint (RemainingViews (fst r)))"
  using assms
proof (induction xs arbitrary: tbl)
  case Nil
  then show ?case by simp
next
  case (Cons x xs)
  obtain r tbl' where step: "pg_step x tbl = (r, tbl')" by (cases "pg_step x tbl")
  obtain rs tbl'' where run: "pg_run xs tbl' = (rs, tbl'')" by (cases "pg_run xs tbl'")
  from pg_step_views [OF Cons.prems, of x] step
  have inv: "\<forall>k r. tbl' k = Some r \<longrightarrow> 0 \<le> sint (remaining_views r)"
    and r: "snd r = None \<longrightarrow> 0 \<le> sint (RemainingViews (fst r))"
    by simp_all
  from Cons.IH [OF inv] run r show ?case
    by (simp add: step)
qed

subsection \<open>The example data\<close>

lemma GenHashKey_example: "GenHashKey example_uuid = example_key"
  by (simp add: GenHashKey_def EncodeToString_def hextable_def example_uuid_def example_key_def)

lemma NewSecret_example:
  "NewSecret example_uuid example_now ''x'' v 0 =
     (if sint v < 1 then (Secret_zero, Some ErrInvalidExpireAfterViews) else (example_secret v, None))"
  by (simp add: NewSecret_def Let_def GenHashKey_example example_secret_def Secret_zero_def)

lemma memStorage_Store_example:
  "1 \<le> sint v \<Longrightarrow> memStorage_Store example_uuid example_now st ''x'' v 0 =
     ((example_secret v, None), st(example_key \<mapsto> example_secret v))"
  by (simp add: memStorage_Store_def NewSecret_example example_secret_def)

lemma pgStorage_Store_example:
  "1 \<le> sint v \<Longrightarrow> sint v \<le> 2147483647 \<Longrightarrow>
   pgStorage_Store example_uuid example_now None Map.empty ''x'' v 0 =
     ((example_secret v, None), [example_key \<mapsto> example_row v])"
  by (simp add: pgStorage_Store_def NewSecret_example NamedExec_INSERT_def bind_row_def Let_def
      int4_range_def IsZero_def example_secret_def example_row_def)

lemma row_secret_example: "row_secret (example_row v) = example_secret v"
  by (simp add: row_secret_def ToSecret_def scan_row_def example_row_def example_secret_def)

lemma IsAvailable_example: "IsAvailable now (example_secret v) = (0 < sint v)"
  by (simp add: IsAvailable_def IsZero_def example_secret_def)

lemma example_views [simp]:
  "RemainingViews (example_secret v) = v" "remaining_views (example_row v) = v"
  "Hash (example_secret v) = example_key"
  by (simp_all add: example_secret_def example_row_def)

lemma example_secret_update:
  "(example_secret v)\<lparr>RemainingViews := w\<rparr> = example_secret w"
  by (simp add: example_secret_def)

lemma example_row_update:
  "(example_row v)\<lparr>remaining_views := w\<rparr> = example_row w"
  by (simp add: example_row_def)

lemma memStorage_Get_example:
  "1 \<le> sint v \<Longrightarrow>
   memStorage_Get now1 now2 (st(example_key \<mapsto> example_secret v)) example_key =
     ((example_secret (v - 1), None), st(example_key \<mapsto> example_secret (v - 1)))"
  by (simp add: memStorage_Get_available IsAvailable_example example_secret_update)

lemma pgStorage_Get_example:
  assumes "1 \<le> sint v" and "sint v \<le> 2147483647" and "clean_env env"
  shows "pgStorage_Get env now [example_key \<mapsto> example_row v] example_key =
     ((example_secret (v - 1), None), [example_key \<mapsto> example_row (v - 1)])"
proof -
  have "IsAvailable now (row_secret (example_row v))"
    using assms(1) by (simp add: row_secret_example IsAvailable_example)
  moreover have "int4_range (sint (remaining_views (example_row v)))"
    using assms(1,2) by (simp add: int4_range_def)
  ultimately show ?thesis
    using pgStorage_Get_available [of "[example_key \<mapsto> example_row v]" example_key
        "example_row v" now env] assms(3)
    by (simp add: row_secret_example example_secret_update example_row_update)
qed

lemma clean_no_faults: "clean_env no_faults"
  by (simp add: clean_env_def no_faults_def)

section \<open>Claims\<close>

subsection \<open>Unknown handles\<close>

text \<open>
  C1, as stated, asks for an error \<^verbatim>\<open>NotFound\<close> distinct from \<^verbatim>\<open>NotAvailable\<close> when the
  handle is not in the store. The source declares no such error: \<^verbatim>\<open>Get\<close> on the empty
  in-memory store fails with \<^verbatim>\<open>ErrSecretNotAvailable\<close>.
\<close>

theorem Get_unknown_handle_is_NotAvailable:
  "snd (fst (memStorage_Get example_now (example_now + 1) NewMemStorage example_key))
     = Some ErrSecretNotAvailable"
  by (simp add: memStorage_Get_def NewMemStorage_def)

text \<open>
  C1, as amended: for every handle that is not present in the store, \<^verbatim>\<open>Get\<close> fails with
  \<^verbatim>\<open>ErrSecretNotAvailable\<close>, the same error as for an expired or exhausted secret, returns
  the zero secret and leaves the store as it was. In the relational backend this holds
  whatever the database does: \<^verbatim>\<open>sql.ErrNoRows\<close> and every driver error are rewritten by
  the deferred function.
\<close>

theorem Get_unknown_handle:
  "(st key = None \<longrightarrow>
      memStorage_Get now1 now2 st key = ((Secret_zero, Some ErrSecretNotAvailable), st)) \<and>
   (tbl key = None \<longrightarrow>
      pgStorage_Get env now tbl key = ((Secret_zero, Some ErrSecretNotAvailable), tbl))"
  by (simp add: memStorage_Get_absent pgStorage_Get_absent)

theorem Get_unknown_handle_witness:
  "NewMemStorage example_key = None \<and>
   memStorage_Get example_now (example_now + 1) NewMemStorage example_key
     = ((Secret_zero, Some ErrSecretNotAvailable), NewMemStorage) \<and>
   (Map.empty :: table) example_key = None \<and>
   pgStorage_Get no_faults example_now Map.empty example_key
     = ((Secret_zero, Some ErrSecretNotAvailable), Map.empty)"
  using Get_unknown_handle [of NewMemStorage example_key example_now "example_now + 1"
      Map.empty no_faults example_now]
  by (simp add: NewMemStorage_def)

subsection \<open>Availability\<close>

text \<open>
  C2: \<^verbatim>\<open>IsAvailable\<close> is true if and only if \<^verbatim>\<open>ExpiresAt\<close> is the zero value or later
  than the current time, and \<^verbatim>\<open>RemainingViews\<close> is positive. The function reads the
  secret and the clock and returns a boolean only, so it has no effect on the secret.
\<close>

theorem IsAvailable_iff:
  "IsAvailable now s \<longleftrightarrow>
     ((ExpiresAt s = 0 \<or> now < ExpiresAt s) \<and> 0 < sint (RemainingViews s))"
  by (simp add: IsAvailable_def IsZero_def After_def)

theorem IsAvailable_iff_witness:
  "IsAvailable example_now (example_secret 3) \<and>
   \<not> IsAvailable example_now (example_secret 0) \<and>
   \<not> IsAvailable example_now ((example_secret 3)\<lparr>ExpiresAt := example_now - 1\<rparr>) \<and>
   IsAvailable example_now ((example_secret 3)\<lparr>ExpiresAt := example_now + 1\<rparr>)"
  using IsAvailable_iff [of example_now "example_secret 3"]
    IsAvailable_iff [of example_now "example_secret 0"]
    IsAvailable_iff [of example_now "(example_secret 3)\<lparr>ExpiresAt := example_now - 1\<rparr>"]
    IsAvailable_iff [of example_now "(example_secret 3)\<lparr>ExpiresAt := example_now + 1\<rparr>"]
  by (simp add: example_secret_def example_now_def)

subsection \<open>Validation\<close>

text \<open>
  C3: creation fails with \<^verbatim>\<open>ErrEmptySecret\<close> when the content is empty, otherwise with
  \<^verbatim>\<open>ErrInvalidExpireAfterViews\<close> when the view count is below 1, otherwise with
  \<^verbatim>\<open>ErrInvalidExpireAfter\<close> when the time to live is negative: the error of
  \<^verbatim>\<open>NewSecret\<close>, and of \<^verbatim>\<open>Store\<close> on both backends, is the one that the ordered checks
  of \<open>spec_validation\<close> give. The relational \<^verbatim>\<open>Store\<close> reports it whatever the database
  would do; on valid input its error is that of the \<^verbatim>\<open>INSERT\<close>.
\<close>

theorem creation_validation_order:
  "snd (NewSecret uuid now content requestedViews ttlMinutes)
     = spec_validation content requestedViews ttlMinutes \<and>
   snd (fst (memStorage_Store uuid now st content requestedViews ttlMinutes))
     = spec_validation content requestedViews ttlMinutes \<and>
   (spec_validation content requestedViews ttlMinutes \<noteq> None \<longrightarrow>
      snd (fst (pgStorage_Store uuid now fault tbl content requestedViews ttlMinutes))
        = spec_validation content requestedViews ttlMinutes)"
  by (simp add: NewSecret_err memStorage_Store_err pgStorage_Store_invalid)

theorem creation_validation_order_witness:
  "snd (NewSecret example_uuid example_now [] 0 10) = Some ErrEmptySecret \<and>
   snd (fst (memStorage_Store example_uuid example_now NewMemStorage [] 0 10)) = Some ErrEmptySecret \<and>
   snd (fst (pgStorage_Store example_uuid example_now None Map.empty [] 0 10)) = Some ErrEmptySecret \<and>
   snd (NewSecret example_uuid example_now ''x'' 0 (- 1)) = Some ErrInvalidExpireAfterViews \<and>
   snd (NewSecret example_uuid example_now ''x'' 5 (- 1)) = Some ErrInvalidExpireAfter \<and>
   snd (NewSecret example_uuid example_now ''x'' 5 10) = None"
  using creation_validation_order [of example_uuid example_now "[]" 0 10 NewMemStorage None Map.empty]
    creation_validation_order [of example_uuid example_now "''x''" 0 "- 1" NewMemStorage None Map.empty]
    creation_validation_order [of example_uuid example_now "''x''" 5 "- 1" NewMemStorage None Map.empty]
    creation_validation_order [of example_uuid example_now "''x''" 5 10 NewMemStorage None Map.empty]
  by (simp add: spec_validation_def)

subsection \<open>Round trip\<close>

text \<open>
  C4: for valid input with at least two views, \<^verbatim>\<open>Store\<close> succeeds, and one \<^verbatim>\<open>Get\<close> on the
  returned handle, while the secret has not expired at either clock reading of that
  \<^verbatim>\<open>Get\<close>, succeeds and returns the stored content with \<^verbatim>\<open>RemainingViews\<close> one less than
  requested. The same holds for the relational backend when its \<^verbatim>\<open>Store\<close> succeeded and
  no statement of the \<^verbatim>\<open>Get\<close> fails.
\<close>

theorem Store_Get_roundtrip:
  assumes "spec_validation content v t = None" and "2 \<le> sint v"
  shows
    "(let stored = memStorage_Store uuid now st content v t;
          s = fst (fst stored);
          g = fst (memStorage_Get now1 now2 (snd stored) (Hash s))
      in snd (fst stored) = None \<and>
         (IsZero (ExpiresAt s) \<or> After (ExpiresAt s) now1 \<and> After (ExpiresAt s) now2 \<longrightarrow>
            snd g = None \<and> SecretText (fst g) = content \<and> Hash (fst g) = Hash s \<and>
            RemainingViews (fst g) = v - 1 \<and> sint (RemainingViews (fst g)) = sint v - 1)) \<and>
     (let stored = pgStorage_Store uuid now fault tbl content v t;
          s = fst (fst stored);
          g = fst (pgStorage_Get env now1 (snd stored) (Hash s))
      in snd (fst stored) = None \<and> clean_env env \<longrightarrow>
            snd g = None \<and> SecretText (fst g) = content \<and> Hash (fst g) = Hash s \<and>
            RemainingViews (fst g) = v - 1 \<and> sint (RemainingViews (fst g)) = sint v - 1)"
proof -
  let ?ms = "memStorage_Store uuid now st content v t"
  let ?ps = "pgStorage_Store uuid now fault tbl content v t"
  let ?mg = "fst (memStorage_Get now1 now2 (snd ?ms) (Hash (fst (fst ?ms))))"
  let ?pg = "fst (pgStorage_Get env now1 (snd ?ps) (Hash (fst (fst ?ps))))"
  have dec: "sint (v - 1) = sint v - 1"
    using assms(2) by (intro sint_pred) simp
  have ok: "snd (fst ?ms) = None"
    using assms(1) by (simp add: memStorage_Store_ok)
  have s: "fst (fst ?ms) = fst (NewSecret uuid now content v t)"
    using assms(1) by (simp add: memStorage_Store_ok)
  have content: "SecretText (fst (fst ?ms)) = content"
    using assms(1) by (simp add: s NewSecret_ok)
  have m: "snd ?mg = None \<and> SecretText (fst ?mg) = content \<and> Hash (fst ?mg) = Hash (fst (fst ?ms)) \<and>
           RemainingViews (fst ?mg) = v - 1 \<and> sint (RemainingViews (fst ?mg)) = sint v - 1"
    if live: "IsZero (ExpiresAt (fst (fst ?ms))) \<or>
              After (ExpiresAt (fst (fst ?ms))) now1 \<and> After (ExpiresAt (fst (fst ?ms))) now2"
    unfolding mem_roundtrip [OF assms(1) assms(2) refl live]
    by (simp add: dec content)
  have p: "snd ?pg = None \<and> SecretText (fst ?pg) = content \<and> Hash (fst ?pg) = Hash (fst (fst ?ps)) \<and>
           RemainingViews (fst ?pg) = v - 1 \<and> sint (RemainingViews (fst ?pg)) = sint v - 1"
    if a: "snd (fst ?ps) = None \<and> clean_env env"
    using pg_roundtrip [OF conjunct1 [OF a] assms(2) refl conjunct2 [OF a] refl]
    by (simp add: dec)
  show ?thesis
    unfolding Let_def using ok m p by blast
qed


theorem Store_Get_roundtrip_witness:
  "spec_validation ''x'' 5 0 = None \<and> 2 \<le> sint (5 :: 64 word) \<and>
   fst (memStorage_Get (example_now + 1) (example_now + 2)
          (snd (memStorage_Store example_uuid example_now NewMemStorage ''x'' 5 0)) example_key)
     = (example_secret 4, None) \<and>
   fst (pgStorage_Get no_faults (example_now + 1)
          (snd (pgStorage_Store example_uuid example_now None Map.empty ''x'' 5 0)) example_key)
     = (example_secret 4, None)"
proof -
  have valid: "spec_validation ''x'' 5 0 = None"
    by (simp add: spec_validation_def)
  have views: "2 \<le> sint (5 :: 64 word)"
    by simp
  have mem: "memStorage_Store example_uuid example_now NewMemStorage ''x'' 5 0 =
      ((example_secret 5, None), NewMemStorage(example_key \<mapsto> example_secret 5))"
    by (simp add: memStorage_Store_example)
  have pg: "pgStorage_Store example_uuid example_now None Map.empty ''x'' 5 0 =
      ((example_secret 5, None), [example_key \<mapsto> example_row 5])"
    by (simp add: pgStorage_Store_example)
  show ?thesis
    using Store_Get_roundtrip [OF valid views, of example_uuid example_now NewMemStorage
        "example_now + 1" "example_now + 2" None Map.empty no_faults]
    by (simp add: valid mem pg memStorage_Get_example pgStorage_Get_example clean_no_faults)
qed

subsection \<open>Secrets that are no longer available\<close>

text \<open>
  The relational \<^verbatim>\<open>Store\<close> sets \<^verbatim>\<open>pSecret.ExpiresAt.Valid\<close> and never
  \<^verbatim>\<open>pSecret.ExpiresAt.Time\<close>: the row of a secret with a positive time to live holds the
  zero time, which \<^verbatim>\<open>Get\<close> reads as "never expires".
\<close>

lemma pgStorage_Store_drops_expiry:
  "pgStorage_Store example_uuid example_now None Map.empty ''x'' 5 1
     = (((example_secret 5)\<lparr>ExpiresAt := example_now + 60000000000\<rparr>, None),
        [example_key \<mapsto> (example_row 5)\<lparr>expires_at := Some 0\<rparr>]) \<and>
   fst (pgStorage_Get no_faults (example_now + 120000000000)
          [example_key \<mapsto> (example_row 5)\<lparr>expires_at := Some 0\<rparr>] example_key)
     = (example_secret 4, None)"
proof -
  have "NewSecret example_uuid example_now ''x'' 5 1
      = ((example_secret 5)\<lparr>ExpiresAt := example_now + 60000000000\<rparr>, None)"
    by (simp add: NewSecret_def Let_def GenHashKey_example Secret_zero_def example_secret_def
        Add_def Minute_def)
  then have store: "pgStorage_Store example_uuid example_now None Map.empty ''x'' 5 1
     = (((example_secret 5)\<lparr>ExpiresAt := example_now + 60000000000\<rparr>, None),
        [example_key \<mapsto> (example_row 5)\<lparr>expires_at := Some 0\<rparr>])"
    by (simp add: pgStorage_Store_def NamedExec_INSERT_def bind_row_def Let_def int4_range_def
        IsZero_def example_secret_def example_row_def example_now_def)
  have r: "row_secret ((example_row 5)\<lparr>expires_at := Some 0\<rparr>) = example_secret 5"
    by (simp add: row_secret_def ToSecret_def scan_row_def example_row_def example_secret_def)
  have a: "IsAvailable (example_now + 120000000000)
             (row_secret ((example_row 5)\<lparr>expires_at := Some 0\<rparr>))"
    by (simp add: r IsAvailable_example)
  have i: "int4_range (sint (remaining_views ((example_row 5)\<lparr>expires_at := Some 0\<rparr>)))"
    by (simp add: int4_range_def example_row_def)
  have "fst (pgStorage_Get no_faults (example_now + 120000000000)
          [example_key \<mapsto> (example_row 5)\<lparr>expires_at := Some 0\<rparr>] example_key)
     = (example_secret 4, None)"
    using pgStorage_Get_available [of "[example_key \<mapsto> (example_row 5)\<lparr>expires_at := Some 0\<rparr>]"
        example_key "(example_row 5)\<lparr>expires_at := Some 0\<rparr>" "example_now + 120000000000"
        no_faults, OF _ a i clean_no_faults]
    by (simp add: r example_secret_update)
  with store show ?thesis
    by simp
qed

text \<open>
  A \<^verbatim>\<open>DELETE\<close> that fails is rolled back: the \<^verbatim>\<open>Get\<close> on an exhausted row fails and the
  row is still in the table, for the next \<^verbatim>\<open>Get\<close> to delete.
\<close>

lemma pgStorage_Get_failed_delete_keeps_row:
  "pgStorage_Get (no_faults\<lparr>Exec_err := Some (DriverError ''connection reset'')\<rparr>)
     (example_now + 1) [example_key \<mapsto> example_row 0] example_key
   = ((Secret_zero, Some ErrSecretNotAvailable), [example_key \<mapsto> example_row 0])"
  by (simp add: pgStorage_Get_unavailable row_secret_example IsAvailable_example clean_env_def
      no_faults_def)

text \<open>
  What holds of the records as they are stored: when the record under a handle is not
  available at some time (its counter is exhausted or the expiry it is stored with has
  passed), or is gone already, then in every later sequence of operations in which no new
  secret is created under that handle, every \<^verbatim>\<open>Get\<close> on the handle fails with
  \<^verbatim>\<open>ErrSecretNotAvailable\<close> and the zero secret, and the record never becomes available
  again. The in-memory backend has removed the record after the first such \<^verbatim>\<open>Get\<close>, the
  relational backend after the first such \<^verbatim>\<open>Get\<close> during which no statement failed.
\<close>

lemma unavailable_secret_stays_gone:
  "(mem_dead now st key \<and> (\<forall>x\<in>set xs. mem_later now key x) \<longrightarrow>
      (\<forall>(x, r)\<in>set (zip xs (fst (mem_run xs st))).
         mem_is_Get key x \<longrightarrow> r = (Secret_zero, Some ErrSecretNotAvailable)) \<and>
      ((\<exists>x\<in>set xs. mem_is_Get key x) \<longrightarrow> snd (mem_run xs st) key = None) \<and>
      mem_dead now (snd (mem_run xs st)) key) \<and>
   (pg_dead now tbl key \<and> (\<forall>y\<in>set ys. pg_later now key y) \<longrightarrow>
      (\<forall>(y, r)\<in>set (zip ys (fst (pg_run ys tbl))).
         pg_is_Get key y \<longrightarrow> r = (Secret_zero, Some ErrSecretNotAvailable)) \<and>
      ((\<exists>y\<in>set ys. pg_is_clean_Get key y) \<longrightarrow> snd (pg_run ys tbl) key = None) \<and>
      pg_dead now (snd (pg_run ys tbl)) key)"
proof (intro conjI impI)
  assume a: "mem_dead now st key \<and> (\<forall>x\<in>set xs. mem_later now key x)"
  note m = mem_run_dead [OF conjunct1 [OF a] conjunct2 [OF a]]
  from m show "\<forall>(x, r)\<in>set (zip xs (fst (mem_run xs st))).
         mem_is_Get key x \<longrightarrow> r = (Secret_zero, Some ErrSecretNotAvailable)"
    by (rule conjunct1 [OF conjunct2])
  from m show "mem_dead now (snd (mem_run xs st)) key"
    by (rule conjunct1)
  assume "\<exists>x\<in>set xs. mem_is_Get key x"
  with m show "snd (mem_run xs st) key = None"
    by blast
next
  assume a: "pg_dead now tbl key \<and> (\<forall>y\<in>set ys. pg_later now key y)"
  note p = pg_run_dead [OF conjunct1 [OF a] conjunct2 [OF a]]
  from p show "\<forall>(y, r)\<in>set (zip ys (fst (pg_run ys tbl))).
         pg_is_Get key y \<longrightarrow> r = (Secret_zero, Some ErrSecretNotAvailable)"
    by (rule conjunct1 [OF conjunct2])
  from p show "pg_dead now (snd (pg_run ys tbl)) key"
    by (rule conjunct1)
  assume "\<exists>y\<in>set ys. pg_is_clean_Get key y"
  with p show "snd (pg_run ys tbl) key = None"
    by blast
qed

lemma unavailable_secret_stays_gone_example:
  "mem_dead example_now [example_key \<mapsto> example_secret 0] example_key \<and>
   mem_later example_now example_key (MemGet (example_now + 1) (example_now + 2) example_key) \<and>
   mem_later example_now example_key (MemGet (example_now + 3) (example_now + 4) example_key) \<and>
   fst (mem_run [MemGet (example_now + 1) (example_now + 2) example_key,
                 MemGet (example_now + 3) (example_now + 4) example_key]
          [example_key \<mapsto> example_secret 0])
     = [(Secret_zero, Some ErrSecretNotAvailable), (Secret_zero, Some ErrSecretNotAvailable)] \<and>
   snd (mem_run [MemGet (example_now + 1) (example_now + 2) example_key,
                 MemGet (example_now + 3) (example_now + 4) example_key]
          [example_key \<mapsto> example_secret 0]) example_key = None \<and>
   pg_dead example_now [example_key \<mapsto> example_row 0] example_key \<and>
   pg_later example_now example_key
     (PgGet (no_faults\<lparr>Exec_err := Some (DriverError ''connection reset'')\<rparr>)
        (example_now + 1) example_key) \<and>
   pg_later example_now example_key (PgGet no_faults (example_now + 2) example_key) \<and>
   pg_is_clean_Get example_key (PgGet no_faults (example_now + 2) example_key) \<and>
   fst (pg_run [PgGet (no_faults\<lparr>Exec_err := Some (DriverError ''connection reset'')\<rparr>)
                  (example_now + 1) example_key,
                PgGet no_faults (example_now + 2) example_key]
          [example_key \<mapsto> example_row 0])
     = [(Secret_zero, Some ErrSecretNotAvailable), (Secret_zero, Some ErrSecretNotAvailable)] \<and>
   snd (pg_run [PgGet (no_faults\<lparr>Exec_err := Some (DriverError ''connection reset'')\<rparr>)
                  (example_now + 1) example_key,
                PgGet no_faults (example_now + 2) example_key]
          [example_key \<mapsto> example_row 0]) example_key = None"
  using unavailable_secret_stays_gone [of example_now "[example_key \<mapsto> example_secret 0]"
      example_key
      "[MemGet (example_now + 1) (example_now + 2) example_key,
        MemGet (example_now + 3) (example_now + 4) example_key]"
      "[example_key \<mapsto> example_row 0]"
      "[PgGet (no_faults\<lparr>Exec_err := Some (DriverError ''connection reset'')\<rparr>)
          (example_now + 1) example_key,
        PgGet no_faults (example_now + 2) example_key]"]
  by (simp add: mem_dead_def pg_dead_def IsAvailable_example row_secret_example
      memStorage_Get_unavailable memStorage_Get_absent pgStorage_Get_unavailable
      pgStorage_Get_absent clean_env_def no_faults_def)

text \<open>
  C5 says that once the secret of a handle has become unavailable, by exhausted views or
  by expiry in time, every subsequent \<^verbatim>\<open>Get\<close> on the handle fails and the record is
  removed from storage. The relational backend does not do this for expiry in time: a
  secret stored with five views and a time to live of one minute is returned by \<^verbatim>\<open>Store\<close>
  with an expiry one minute after its creation, and is not available two minutes after
  it; the \<^verbatim>\<open>Get\<close> at that time, with no statement failing, succeeds all the same, returns
  the content, and leaves the row in the table with one view less. The in-memory backend
  on the same input does what the claim says: its \<^verbatim>\<open>Get\<close> fails with
  \<^verbatim>\<open>ErrSecretNotAvailable\<close> and removes the record.
\<close>

theorem pgStorage_Get_serves_expired_secret:
  "fst (pgStorage_Store example_uuid example_now None Map.empty ''x'' 5 1)
     = ((example_secret 5)\<lparr>ExpiresAt := example_now + 60000000000\<rparr>, None) \<and>
   IsAvailable (example_now + 120000000000)
     ((example_secret 5)\<lparr>ExpiresAt := example_now + 60000000000\<rparr>) = False \<and>
   pgStorage_Get no_faults (example_now + 120000000000)
     (snd (pgStorage_Store example_uuid example_now None Map.empty ''x'' 5 1)) example_key
     = ((example_secret 4, None), [example_key \<mapsto> (example_row 4)\<lparr>expires_at := Some 0\<rparr>]) \<and>
   SecretText (example_secret 4) = ''x'' \<and>
   fst (memStorage_Store example_uuid example_now NewMemStorage ''x'' 5 1)
     = ((example_secret 5)\<lparr>ExpiresAt := example_now + 60000000000\<rparr>, None) \<and>
   memStorage_Get (example_now + 120000000000) (example_now + 120000000001)
     (snd (memStorage_Store example_uuid example_now NewMemStorage ''x'' 5 1)) example_key
     = ((Secret_zero, Some ErrSecretNotAvailable), Map.empty)"
proof -
  let ?s = "(example_secret 5)\<lparr>ExpiresAt := example_now + 60000000000\<rparr>"
  let ?r = "(example_row 5)\<lparr>expires_at := Some 0\<rparr>"
  have new: "NewSecret example_uuid example_now ''x'' 5 1 = (?s, None)"
    by (simp add: NewSecret_def Let_def GenHashKey_example Secret_zero_def example_secret_def
        Add_def Minute_def)
  have expired: "IsAvailable now ?s = False" if "example_now + 60000000000 \<le> now" for now
    using that
    by (simp add: IsAvailable_def IsZero_def After_def example_secret_def example_now_def)
  have pstore: "pgStorage_Store example_uuid example_now None Map.empty ''x'' 5 1
      = ((?s, None), [example_key \<mapsto> ?r])"
    using pgStorage_Store_drops_expiry by simp
  have r: "row_secret ?r = example_secret 5"
    by (simp add: row_secret_def ToSecret_def scan_row_def example_row_def example_secret_def)
  have a: "IsAvailable (example_now + 120000000000) (row_secret ?r)"
    by (simp add: r IsAvailable_example)
  have i: "int4_range (sint (remaining_views ?r))"
    by (simp add: int4_range_def example_row_def)
  have pget: "pgStorage_Get no_faults (example_now + 120000000000) [example_key \<mapsto> ?r] example_key
      = ((example_secret 4, None), [example_key \<mapsto> (example_row 4)\<lparr>expires_at := Some 0\<rparr>])"
    using pgStorage_Get_available [of "[example_key \<mapsto> ?r]" example_key ?r
        "example_now + 120000000000" no_faults, OF _ a i clean_no_faults]
    by (simp add: r example_secret_update) (simp add: example_row_def)
  have h: "Hash ?s = example_key"
    by simp
  have mstore: "memStorage_Store example_uuid example_now NewMemStorage ''x'' 5 1
      = ((?s, None), [example_key \<mapsto> ?s])"
    by (simp add: memStorage_Store_def new NewMemStorage_def)
  have mget: "memStorage_Get (example_now + 120000000000) (example_now + 120000000001)
      [example_key \<mapsto> ?s] example_key = ((Secret_zero, Some ErrSecretNotAvailable), Map.empty)"
    using memStorage_Get_unavailable [of "[example_key \<mapsto> ?s]" example_key ?s
        "example_now + 120000000000" "example_now + 120000000001"]
      expired [of "example_now + 120000000000"]
    by simp
  show ?thesis
    using expired [of "example_now + 120000000000"]
    by (simp add: pstore pget mstore mget) (simp add: example_secret_def)
qed

subsection \<open>The view counter\<close>

text \<open>
  C6, as stated, says that no caller sees \<^verbatim>\<open>RemainingViews <= 0\<close> in a successful result of
  \<^verbatim>\<open>Get\<close>. The result carries the counter after the decrement: the one permitted \<^verbatim>\<open>Get\<close> on
  a secret stored with a single view succeeds and returns \<^verbatim>\<open>RemainingViews = 0\<close>.
\<close>

theorem last_view_returns_zero_views:
  "fst (memStorage_Get (example_now + 1) (example_now + 2)
          (snd (memStorage_Store example_uuid example_now NewMemStorage ''x'' 1 0))
          (Hash (fst (fst (memStorage_Store example_uuid example_now NewMemStorage ''x'' 1 0)))))
     = (example_secret 0, None) \<and>
   sint (RemainingViews (example_secret 0)) = 0"
  by (simp add: memStorage_Store_example memStorage_Get_example)

text \<open>
  C6, as amended: on either backend a \<^verbatim>\<open>Get\<close> succeeds only when the stored counter is
  positive, and its result carries the stored counter minus one, so a successful result
  has \<^verbatim>\<open>RemainingViews >= 0\<close> (zero on the last permitted view) and is never negative.
  In every state reached from the empty store by any sequence of operations each stored
  counter is non-negative and every successful result has a non-negative counter; a
  \<^verbatim>\<open>Get\<close> never increases a stored counter, and a \<^verbatim>\<open>Store\<close> touches no entry but the one
  of its new handle.
\<close>

theorem remaining_views_bounds:
  "(\<forall>r\<in>set (fst (mem_run xs NewMemStorage)). snd r = None \<longrightarrow> 0 \<le> sint (RemainingViews (fst r))) \<and>
   (\<forall>k s. snd (mem_run xs NewMemStorage) k = Some s \<longrightarrow> 0 \<le> sint (RemainingViews s)) \<and>
   (snd (fst (memStorage_Get now1 now2 st key)) = None \<longrightarrow>
      (\<exists>s. st key = Some s \<and> 0 < sint (RemainingViews s) \<and>
           sint (RemainingViews (fst (fst (memStorage_Get now1 now2 st key))))
             = sint (RemainingViews s) - 1)) \<and>
   (\<forall>k s'. snd (memStorage_Get now1 now2 st key) k = Some s' \<longrightarrow>
      (\<exists>s. st k = Some s \<and> sint (RemainingViews s') \<le> sint (RemainingViews s))) \<and>
   (\<forall>k. k \<noteq> GenHashKey uuid \<longrightarrow> snd (memStorage_Store uuid now st content v t) k = st k) \<and>
   (\<forall>r\<in>set (fst (pg_run ys Map.empty)). snd r = None \<longrightarrow> 0 \<le> sint (RemainingViews (fst r))) \<and>
   (\<forall>k r. snd (pg_run ys Map.empty) k = Some r \<longrightarrow> 0 \<le> sint (remaining_views r)) \<and>
   (snd (fst (pgStorage_Get env now tbl key)) = None \<longrightarrow>
      (\<exists>r. tbl key = Some r \<and> 0 < sint (remaining_views r) \<and>
           sint (RemainingViews (fst (fst (pgStorage_Get env now tbl key))))
             = sint (remaining_views r) - 1)) \<and>
   (\<forall>k r'. snd (pgStorage_Get env now tbl key) k = Some r' \<longrightarrow>
      (\<exists>r. tbl k = Some r \<and> sint (remaining_views r') \<le> sint (remaining_views r))) \<and>
   (\<forall>k. k \<noteq> GenHashKey uuid \<longrightarrow> snd (pgStorage_Store uuid now fault tbl content v t) k = tbl k)"
proof -
  have m0: "\<forall>k s. NewMemStorage k = Some s \<longrightarrow> 0 \<le> sint (RemainingViews s)"
    by (simp add: NewMemStorage_def)
  have p0: "\<forall>k r. (Map.empty :: table) k = Some r \<longrightarrow> 0 \<le> sint (remaining_views r)"
    by simp
  note m = mem_run_views [OF m0, of xs]
  note p = pg_run_views [OF p0, of ys]
  have ms: "\<exists>s. st key = Some s \<and> 0 < sint (RemainingViews s) \<and>
           sint (RemainingViews (fst (fst (memStorage_Get now1 now2 st key))))
             = sint (RemainingViews s) - 1"
    if "snd (fst (memStorage_Get now1 now2 st key)) = None"
    using memStorage_Get_success [OF that] by blast
  have ps: "\<exists>r. tbl key = Some r \<and> 0 < sint (remaining_views r) \<and>
           sint (RemainingViews (fst (fst (pgStorage_Get env now tbl key))))
             = sint (remaining_views r) - 1"
    if "snd (fst (pgStorage_Get env now tbl key)) = None"
    using pgStorage_Get_success [OF that] by blast
  show ?thesis
    using conjunct1 [OF m] conjunct2 [OF m] conjunct1 [OF p] conjunct2 [OF p] ms ps
      memStorage_Get_mono [of now1 now2 st key] pgStorage_Get_mono [of env now tbl key]
      memStorage_Store_frame [of _ uuid now st content v t]
      pgStorage_Store_frame [of _ uuid now fault tbl content v t]
    by (intro conjI allI impI) blast+
qed

theorem remaining_views_bounds_witness:
  "fst (mem_run [MemStore example_uuid example_now ''x'' 2 0,
                 MemGet (example_now + 1) (example_now + 2) example_key,
                 MemGet (example_now + 3) (example_now + 4) example_key,
                 MemGet (example_now + 5) (example_now + 6) example_key] NewMemStorage)
     = [(example_secret 2, None), (example_secret 1, None), (example_secret 0, None),
        (Secret_zero, Some ErrSecretNotAvailable)] \<and>
   0 \<le> sint (RemainingViews (example_secret 0)) \<and>
   fst (pg_run [PgStore example_uuid example_now None ''x'' 1 0,
                PgGet no_faults (example_now + 1) example_key,
                PgGet no_faults (example_now + 2) example_key] Map.empty)
     = [(example_secret 1, None), (example_secret 0, None),
        (Secret_zero, Some ErrSecretNotAvailable)]"
  using remaining_views_bounds [where
      xs = "[MemStore example_uuid example_now ''x'' 2 0,
        MemGet (example_now + 1) (example_now + 2) example_key,
        MemGet (example_now + 3) (example_now + 4) example_key,
        MemGet (example_now + 5) (example_now + 6) example_key]"
      and ?now1.0 = "example_now + 1" and ?now2.0 = "example_now + 2"
      and st = "NewMemStorage(example_key \<mapsto> example_secret 2)"
      and key = example_key and uuid = example_uuid and now = example_now
      and content = "''x''" and v = 2 and t = 0
      and ys = "[PgStore example_uuid example_now None ''x'' 1 0,
        PgGet no_faults (example_now + 1) example_key,
        PgGet no_faults (example_now + 2) example_key]"
      and env = no_faults and tbl = "[example_key \<mapsto> example_row 1]" and fault = None]
  by (simp add: memStorage_Store_example memStorage_Get_example pgStorage_Store_example
      pgStorage_Get_example clean_no_faults memStorage_Get_unavailable pgStorage_Get_unavailable
      IsAvailable_example row_secret_example)

subsection \<open>Expiry time\<close>

text \<open>
  With a time to live of zero the expiry stays at the zero value, and the secret is
  available at every later time while views remain.
\<close>

lemma NewSecret_ttl_zero:
  assumes "content \<noteq> []" and "1 \<le> sint v"
  shows "snd (NewSecret uuid now content v 0) = None \<and>
         ExpiresAt (fst (NewSecret uuid now content v 0)) = 0 \<and>
         IsAvailable later (fst (NewSecret uuid now content v 0))"
proof -
  have "spec_validation content v 0 = None"
    using assms by (simp add: spec_validation_def)
  with assms(2) show ?thesis
    by (simp add: NewSecret_ok IsAvailable_def IsZero_def)
qed

text \<open>
  A positive time to live of at most 153722867 minutes is added to the creation time as
  it is: the product with \<^verbatim>\<open>time.Minute\<close> fits into 64 bits.
\<close>

lemma sint_minutes:
  fixes t :: "64 word"
  assumes "0 \<le> sint t" and "sint t \<le> 153722867"
  shows "sint (t * Minute) = sint t * 60000000000"
proof -
  have m: "sint Minute = 60000000000"
    by (simp add: Minute_def)
  have lo: "- (2 ^ 63) \<le> sint t * 60000000000"
    using assms(1) by simp
  have "sint t * 60000000000 \<le> 153722867 * 60000000000"
    using assms(2) by simp
  then have hi: "sint t * 60000000000 < 2 ^ 63"
    by simp
  have "signed_take_bit 63 (sint t * 60000000000) = sint t * 60000000000"
    using lo hi by (rule signed_take_bit_int_eq_self)
  then show ?thesis
    by (simp add: sint_word_ariths m)
qed

lemma NewSecret_ttl_in_range:
  assumes "content \<noteq> []" and "1 \<le> sint v" and "0 < sint t" and "sint t \<le> 153722867"
  shows "snd (NewSecret uuid now content v t) = None \<and>
         ExpiresAt (fst (NewSecret uuid now content v t)) = now + sint t * 60000000000"
proof -
  have "spec_validation content v t = None"
    using assms by (simp add: spec_validation_def)
  moreover have "sint (t * Minute) = sint t * 60000000000"
    using assms(3,4) by (intro sint_minutes) simp_all
  ultimately show ?thesis
    using assms(3) by (simp add: NewSecret_ok Add_def)
qed

text \<open>
  C7 says that for a positive time to live the expiry is the creation time plus that many
  minutes. At 153722868 minutes the multiplication \<^verbatim>\<open>time.Duration(expireAfter) * time.Minute\<close>
  wraps around in 64 bits: \<^verbatim>\<open>NewSecret\<close> succeeds, and the expiry lies about 292 years before
  the creation time, not 153722868 minutes after it, so the new secret is not available.
\<close>

theorem NewSecret_ttl_overflow:
  "NewSecret example_uuid example_now ''x'' 1 153722868
     = ((example_secret 1)\<lparr>ExpiresAt := example_now - 9223371993709551616\<rparr>, None) \<and>
   example_now - 9223371993709551616 \<noteq> example_now + 153722868 * 60000000000 \<and>
   IsAvailable example_now (fst (NewSecret example_uuid example_now ''x'' 1 153722868)) = False"
  by (simp add: NewSecret_def Let_def GenHashKey_example Secret_zero_def example_secret_def
      Add_def Minute_def IsAvailable_def IsZero_def After_def example_now_def)

subsection \<open>Errors of the relational backend\<close>

text \<open>
  C8: the error of the relational \<^verbatim>\<open>Get\<close> is nil or \<^verbatim>\<open>ErrSecretNotAvailable\<close> and nothing
  else; whenever \<^verbatim>\<open>Beginx\<close>, the \<^verbatim>\<open>SELECT\<close>, the \<^verbatim>\<open>UPDATE\<close> or \<^verbatim>\<open>DELETE\<close>, or \<^verbatim>\<open>Commit\<close>
  fails, it is \<^verbatim>\<open>ErrSecretNotAvailable\<close>. The relational \<^verbatim>\<open>Store\<close> on valid input returns
  the error of its \<^verbatim>\<open>INSERT\<close> as it is, with the zero secret and the table unchanged.
\<close>

theorem pgStorage_error_policy:
  "(snd (fst (pgStorage_Get env now tbl key)) = None \<or>
    snd (fst (pgStorage_Get env now tbl key)) = Some ErrSecretNotAvailable) \<and>
   (\<not> clean_env env \<longrightarrow>
      snd (fst (pgStorage_Get env now tbl key)) = Some ErrSecretNotAvailable) \<and>
   (spec_validation content v t = None \<longrightarrow>
      pgStorage_Store uuid now' (Some e) tbl content v t = ((Secret_zero, Some e), tbl))"
  using pgStorage_Get_err [of env now tbl key] pgStorage_Get_fault [of env now tbl key]
    pgStorage_Store_fault [of content v t uuid now' e tbl]
  by blast

theorem pgStorage_error_policy_witness:
  "clean_env (no_faults\<lparr>Commit_err := Some (DriverError ''connection reset'')\<rparr>) = False \<and>
   snd (fst (pgStorage_Get (no_faults\<lparr>Commit_err := Some (DriverError ''connection reset'')\<rparr>)
               (example_now + 1) [example_key \<mapsto> example_row 3] example_key))
     = Some ErrSecretNotAvailable \<and>
   spec_validation ''x'' 3 0 = None \<and>
   pgStorage_Store example_uuid example_now (Some (DriverError ''connection refused''))
       Map.empty ''x'' 3 0
     = ((Secret_zero, Some (DriverError ''connection refused'')), Map.empty)"
  using pgStorage_error_policy [where
      env = "no_faults\<lparr>Commit_err := Some (DriverError ''connection reset'')\<rparr>"
      and now = "example_now + 1" and tbl = "[example_key \<mapsto> example_row 3]"
      and key = example_key and content = "''x''" and v = 3 and t = 0 and uuid = example_uuid
      and now' = example_now and e = "DriverError ''connection refused''"]
    pgStorage_error_policy [where
      env = "no_faults\<lparr>Commit_err := Some (DriverError ''connection reset'')\<rparr>"
      and now = "example_now + 1" and tbl = Map.empty
      and key = example_key and content = "''x''" and v = 3 and t = 0 and uuid = example_uuid
      and now' = example_now and e = "DriverError ''connection refused''"]
  by (simp add: clean_env_def no_faults_def spec_validation_def)

subsection \<open>The secret returned with an error\<close>

text \<open>
  Every \<^verbatim>\<open>return\<close> statement of the source that returns an error returns \<^verbatim>\<open>Secret{}\<close> with
  it: \<^verbatim>\<open>NewSecret\<close>, both \<^verbatim>\<open>Store\<close> methods and the in-memory \<^verbatim>\<open>Get\<close> give the zero secret
  with every error, and so does the relational \<^verbatim>\<open>Get\<close> when \<^verbatim>\<open>Commit\<close> does not fail.
\<close>

lemma error_results_are_zero:
  "(snd (NewSecret uuid now content v t) \<noteq> None \<longrightarrow>
      fst (NewSecret uuid now content v t) = Secret_zero) \<and>
   (snd (fst (memStorage_Store uuid now st content v t)) \<noteq> None \<longrightarrow>
      fst (fst (memStorage_Store uuid now st content v t)) = Secret_zero) \<and>
   (snd (fst (memStorage_Get now1 now2 st key)) \<noteq> None \<longrightarrow>
      fst (fst (memStorage_Get now1 now2 st key)) = Secret_zero) \<and>
   (snd (fst (pgStorage_Store uuid now fault tbl content v t)) \<noteq> None \<longrightarrow>
      fst (fst (pgStorage_Store uuid now fault tbl content v t)) = Secret_zero) \<and>
   (Commit_err env = None \<longrightarrow> snd (fst (pgStorage_Get env now tbl key)) \<noteq> None \<longrightarrow>
      fst (fst (pgStorage_Get env now tbl key)) = Secret_zero)"
proof (intro conjI impI)
  assume "snd (NewSecret uuid now content v t) \<noteq> None"
  then show "fst (NewSecret uuid now content v t) = Secret_zero"
    by (rule NewSecret_zero_on_error)
next
  assume "snd (fst (memStorage_Store uuid now st content v t)) \<noteq> None"
  then have "spec_validation content v t \<noteq> None"
    by (simp add: memStorage_Store_err)
  from memStorage_Store_invalid [OF this, of uuid now st]
  show "fst (fst (memStorage_Store uuid now st content v t)) = Secret_zero"
    by simp
next
  assume "snd (fst (memStorage_Get now1 now2 st key)) \<noteq> None"
  then show "fst (fst (memStorage_Get now1 now2 st key)) = Secret_zero"
    by (auto simp add: memStorage_Get_def Let_def split: option.splits if_splits)
next
  assume "snd (fst (pgStorage_Store uuid now fault tbl content v t)) \<noteq> None"
  then show "fst (fst (pgStorage_Store uuid now fault tbl content v t)) = Secret_zero"
    by (cases "NewSecret uuid now content v t")
       (auto simp add: pgStorage_Store_def Let_def split: prod.splits if_splits)
next
  assume "Commit_err env = None" and "snd (fst (pgStorage_Get env now tbl key)) \<noteq> None"
  then show "fst (fst (pgStorage_Get env now tbl key)) = Secret_zero"
    by (auto simp add: pgStorage_Get_def pgStorage_Get_deferred_def pgStorage_Get_body_def
        tx_Get_def tx_Exec_UPDATE_def tx_Exec_DELETE_def Let_def
        split: option.splits prod.splits if_splits)
qed

text \<open>
  C9 says that a secret returned together with an error is always the zero value. In the
  relational \<^verbatim>\<open>Get\<close> the statement \<^verbatim>\<open>return secret, nil\<close> sets the named result to the
  secret that was read, and when \<^verbatim>\<open>Commit\<close> then fails the deferred function replaces the
  error only: the caller receives \<^verbatim>\<open>ErrSecretNotAvailable\<close> together with the handle, the
  content and the decremented counter of the secret, and the table keeps its row.
\<close>

theorem pgStorage_Get_commit_failure_returns_secret:
  "pgStorage_Get (no_faults\<lparr>Commit_err := Some (DriverError ''connection reset'')\<rparr>)
     (example_now + 1)
     (snd (pgStorage_Store example_uuid example_now None Map.empty ''x'' 3 0)) example_key
   = ((example_secret 2, Some ErrSecretNotAvailable), [example_key \<mapsto> example_row 3]) \<and>
   SecretText (example_secret 2) = ''x'' \<and> example_secret 2 \<noteq> Secret_zero"
proof -
  have "IsAvailable (example_now + 1) (row_secret (example_row 3))"
    by (simp add: row_secret_example IsAvailable_example)
  then have "pgStorage_Get (no_faults\<lparr>Commit_err := Some (DriverError ''connection reset'')\<rparr>)
     (example_now + 1) [example_key \<mapsto> example_row 3] example_key
   = ((example_secret 2, Some ErrSecretNotAvailable), [example_key \<mapsto> example_row 3])"
    by (simp add: pgStorage_Get_cases clean_env_def no_faults_def int4_range_def
        row_secret_example example_secret_update)
  then show ?thesis
    by (simp add: pgStorage_Store_example) (simp add: example_secret_def Secret_zero_def)
qed

subsection \<open>Storing in memory\<close>

text \<open>
  C10: the in-memory \<^verbatim>\<open>Store\<close> returns an error if and only if the content is empty, the
  view count is below 1 or the time to live is negative. On every other input it
  succeeds, returns the new secret and puts it into the map under its generated handle,
  leaving every other entry alone, so that a following \<^verbatim>\<open>Get\<close> on that handle finds this
  record: it succeeds with the counter decremented if the record is available at both
  clock readings, and fails with \<^verbatim>\<open>ErrSecretNotAvailable\<close> otherwise.
\<close>

theorem memStorage_Store_error_iff:
  "(snd (fst (memStorage_Store uuid now st content v t)) \<noteq> None \<longleftrightarrow>
      content = [] \<or> sint v < 1 \<or> sint t < 0) \<and>
   (content \<noteq> [] \<and> 1 \<le> sint v \<and> 0 \<le> sint t \<longrightarrow>
      (let stored = memStorage_Store uuid now st content v t; s = fst (fst stored)
       in snd (fst stored) = None \<and> Hash s = GenHashKey uuid \<and> SecretText s = content \<and>
          RemainingViews s = v \<and> snd stored (Hash s) = Some s \<and>
          (\<forall>k. k \<noteq> Hash s \<longrightarrow> snd stored k = st k) \<and>
          fst (memStorage_Get now1 now2 (snd stored) (Hash s)) =
            (if IsAvailable now1 s \<and> IsAvailable now2 s
             then (s\<lparr>RemainingViews := v - 1\<rparr>, None)
             else (Secret_zero, Some ErrSecretNotAvailable))))"
proof (intro conjI impI)
  show "snd (fst (memStorage_Store uuid now st content v t)) \<noteq> None \<longleftrightarrow>
      content = [] \<or> sint v < 1 \<or> sint t < 0"
    using spec_validation_None [of content v t]
    by (auto simp add: memStorage_Store_err)
next
  assume "content \<noteq> [] \<and> 1 \<le> sint v \<and> 0 \<le> sint t"
  then have valid: "spec_validation content v t = None"
    by (simp add: spec_validation_None)
  define s where "s = fst (NewSecret uuid now content v t)"
  have f: "Hash s = GenHashKey uuid" "SecretText s = content" "RemainingViews s = v"
    using valid by (simp_all add: s_def NewSecret_ok)
  have stored: "memStorage_Store uuid now st content v t = ((s, None), st(Hash s \<mapsto> s))"
    using valid by (simp add: memStorage_Store_ok s_def [symmetric] f)
  have get: "fst (memStorage_Get now1 now2 (st(Hash s \<mapsto> s)) (Hash s)) =
      (if IsAvailable now1 s \<and> IsAvailable now2 s
       then (s\<lparr>RemainingViews := v - 1\<rparr>, None)
       else (Secret_zero, Some ErrSecretNotAvailable))"
    by (simp add: memStorage_Get_def Let_def f)
  show "let stored = memStorage_Store uuid now st content v t; s = fst (fst stored)
       in snd (fst stored) = None \<and> Hash s = GenHashKey uuid \<and> SecretText s = content \<and>
          RemainingViews s = v \<and> snd stored (Hash s) = Some s \<and>
          (\<forall>k. k \<noteq> Hash s \<longrightarrow> snd stored k = st k) \<and>
          fst (memStorage_Get now1 now2 (snd stored) (Hash s)) =
            (if IsAvailable now1 s \<and> IsAvailable now2 s
             then (s\<lparr>RemainingViews := v - 1\<rparr>, None)
             else (Secret_zero, Some ErrSecretNotAvailable))"
    unfolding stored Let_def using get by (simp add: f)
qed

theorem memStorage_Store_error_iff_witness:
  "memStorage_Store example_uuid example_now NewMemStorage ''x'' 5 0
     = ((example_secret 5, None), [example_key \<mapsto> example_secret 5]) \<and>
   fst (memStorage_Get (example_now + 1) (example_now + 2)
          [example_key \<mapsto> example_secret 5] example_key) = (example_secret 4, None) \<and>
   snd (fst (memStorage_Store example_uuid example_now NewMemStorage ''x'' 0 0))
     = Some ErrInvalidExpireAfterViews"
  using memStorage_Store_error_iff [of example_uuid example_now NewMemStorage "''x''" 5 0
      "example_now + 1" "example_now + 2"]
    memStorage_Store_error_iff [of example_uuid example_now NewMemStorage "''x''" 0 0
      "example_now + 1" "example_now + 2"]
  by (simp add: memStorage_Store_example memStorage_Get_example NewMemStorage_def
      memStorage_Store_err spec_validation_def)

end
